theory Spec2Isabelle
  imports Complex_Main "HOL-Library.Multiset"
begin

section \<open>PeriodOptimizer\<close>

text \<open>
  \<^verbatim>\<open>PeriodOptimizer.VALID_PERIODS\<close> and \<^verbatim>\<open>get_optimal_period\<close> of
  \<^verbatim>\<open>schwab_market_data_client.py\<close>. Python's integers are unbounded, so the
  argument is an \<^typ>\<open>int\<close>. The \<^verbatim>\<open>for\<close> loop over the list is the recursion
  \<open>first_period\<close>: return the first period that fits, 0 when the list is exhausted.
\<close>

definition VALID_PERIODS :: "int list" where
  "VALID_PERIODS = [10, 5, 4, 3, 2, 1]"

fun first_period :: "int \<Rightarrow> int list \<Rightarrow> int" where
  "first_period days_remaining [] = 0"
| "first_period days_remaining (period # periods) =
     (if days_remaining \<ge> period then period else first_period days_remaining periods)"

definition get_optimal_period :: "int \<Rightarrow> int" where
  "get_optimal_period days_remaining = first_period days_remaining VALID_PERIODS"

section \<open>Calendar arithmetic of the datetime library\<close>

text \<open>
  The source relies on Python's \<^verbatim>\<open>datetime\<close> and \<^verbatim>\<open>calendar\<close> modules for the
  proleptic Gregorian calendar. Days are counted from 1970-01-01 (day 0); a date is a
  year, a month (1 to 12) and a day of the month. \<open>weekday\<close> is Python's: Monday is 0,
  Friday is 4. \<open>monthrange\<close> is the second component of \<^verbatim>\<open>calendar.monthrange\<close>,
  the number of days of the month. The arithmetic is total over the integers: the
  library's range of years, 1 to 9999, outside which it raises, is not modelled.
\<close>

definition isleap :: "int \<Rightarrow> bool" where
  "isleap y = (y mod 4 = 0 \<and> (y mod 100 \<noteq> 0 \<or> y mod 400 = 0))"

definition monthrange :: "int \<Rightarrow> int \<Rightarrow> int" where
  "monthrange y m =
     (if m = 2 then (if isleap y then 29 else 28)
      else if m = 4 \<or> m = 6 \<or> m = 9 \<or> m = 11 then 30 else 31)"

definition days_from_civil :: "int \<Rightarrow> int \<Rightarrow> int \<Rightarrow> int" where
  "days_from_civil y m d =
     (let y' = (if m \<le> 2 then y - 1 else y);
          era = y' div 400;
          yoe = y' mod 400;
          doy = (153 * (if m > 2 then m - 3 else m + 9) + 2) div 5 + d - 1;
          doe = yoe * 365 + yoe div 4 - yoe div 100 + doy
      in era * 146097 + doe - 719468)"

definition civil_from_days :: "int \<Rightarrow> int \<times> int \<times> int" where
  "civil_from_days z =
     (let z' = z + 719468;
          era = z' div 146097;
          doe = z' mod 146097;
          yoe = (doe - doe div 1460 + doe div 36524 - doe div 146096) div 365;
          doy = doe - (365 * yoe + yoe div 4 - yoe div 100);
          mp = (5 * doy + 2) div 153;
          d = doy - (153 * mp + 2) div 5 + 1;
          m = (if mp < 10 then mp + 3 else mp - 9);
          y = yoe + era * 400
      in (if m \<le> 2 then y + 1 else y, m, d))"

definition weekday :: "int \<Rightarrow> int \<Rightarrow> int \<Rightarrow> int" where
  "weekday y m d = (days_from_civil y m d + 3) mod 7"

text \<open>
  A time of day is the number of milliseconds since local midnight: the candles'
  timestamps are whole milliseconds, so this is exactly what Python's \<^verbatim>\<open>time\<close> objects
  (hour, minute, second, microsecond, compared lexicographically) distinguish here.
\<close>

definition hms :: "int \<Rightarrow> int \<Rightarrow> int \<Rightarrow> int" where
  "hms h m s = ((h * 60 + m) * 60 + s) * 1000"

text \<open>
  A timezone-aware \<^verbatim>\<open>datetime\<close> in the exchange timezone. The timezone database
  (\<^verbatim>\<open>pytz.timezone('America/New_York')\<close>) is not part of the repository: a timezone
  is the function that gives, for an instant in epoch seconds (UTC), the offset from UTC
  in seconds and the zone abbreviation in force.
\<close>

type_synonym tzinfo = "int \<Rightarrow> int \<times> string"

record local_datetime =
  year :: int
  month :: int
  day :: int
  time_ms :: int
  tzname :: string

definition astimezone :: "tzinfo \<Rightarrow> int \<Rightarrow> local_datetime" where
  "astimezone tz timestamp_ms =
     (let (utcoffset, name) = tz (timestamp_ms div 1000);
          local_ms = timestamp_ms + utcoffset * 1000;
          (y, m, d) = civil_from_days (local_ms div 86400000)
      in \<lparr>year = y, month = m, day = d, time_ms = local_ms mod 86400000, tzname = name\<rparr>)"

fun dec :: "nat \<Rightarrow> string" where
  "dec n = (if n < 10 then [''0123456789'' ! n]
            else dec (n div 10) @ [''0123456789'' ! (n mod 10)])"

definition two_digits :: "int \<Rightarrow> string" where
  "two_digits n = [''0123456789'' ! nat (n div 10 mod 10), ''0123456789'' ! nat (n mod 10)]"

definition strftime :: "local_datetime \<Rightarrow> string" where
  \<comment> \<open>the format \<^verbatim>\<open>'%Y-%m-%d %H:%M:%S %Z'\<close>\<close>
  "strftime dt =
     dec (nat (year dt)) @ ''-'' @ two_digits (month dt) @ ''-'' @ two_digits (day dt) @ '' '' @
     two_digits (time_ms dt div 3600000) @ '':'' @ two_digits (time_ms dt div 60000 mod 60) @ '':'' @
     two_digits (time_ms dt div 1000 mod 60) @ '' '' @ tzname dt"

section \<open>MarketDataProcessor\<close>

text \<open>
  A raw candle is the provider's dictionary; a key may be missing, which is \<open>None\<close>
  (\<^verbatim>\<open>candle.get(key, 0)\<close> then gives 0). The rows of a DataFrame have the seven columns
  of the source; the column types vary with the place (cells that may be null in the
  validator, the parsed index in the aggregator), so the row type is polymorphic.
\<close>

record candle =
  c_datetime :: "int option"
  c_open :: "rat option"
  c_high :: "rat option"
  c_low :: "rat option"
  c_close :: "rat option"
  c_volume :: "int option"

record ('ts, 'dt, 'p, 'v) row =
  timestamp :: 'ts
  datetime :: 'dt
  "open" :: 'p
  high :: 'p
  low :: 'p
  close :: 'p
  volume :: 'v

type_synonym bar = "(int, string, rat, int) row"

record MarketDataProcessor =
  timezone :: tzinfo
  market_open :: int
  market_close :: int
  early_close :: int

definition MarketDataProcessor_init :: "tzinfo \<Rightarrow> MarketDataProcessor" where
  \<comment> \<open>\<^verbatim>\<open>MarketDataProcessor(MarketConfig())\<close>: the default session times\<close>
  "MarketDataProcessor_init tz =
     \<lparr>timezone = tz, market_open = hms 9 30 0, market_close = hms 16 0 0,
      early_close = hms 13 0 0\<rparr>"

definition fridays_of :: "int \<Rightarrow> int \<Rightarrow> int list" where
  "fridays_of y m = filter (\<lambda>d. weekday y m d = 4) [1..monthrange y m]"

definition is_fourth_friday :: "local_datetime \<Rightarrow> bool" where
  "is_fourth_friday date =
     (let fridays = fridays_of (year date) (month date)
      in length fridays \<ge> 4 \<and> day date = fridays ! 3)"

definition get_or :: "'a option \<Rightarrow> 'a \<Rightarrow> 'a" where
  "get_or v dflt = (case v of None \<Rightarrow> dflt | Some x \<Rightarrow> x)"

definition process_single_candle :: "MarketDataProcessor \<Rightarrow> candle \<Rightarrow> bar option" where
  "process_single_candle self candle =
     (let timestamp_ms = get_or (c_datetime candle) 0;
          dt_et = astimezone (timezone self) timestamp_ms;
          candle_time = time_ms dt_et
      in if candle_time < market_open self \<or> candle_time > market_close self then None
         else if month dt_et = 7 \<and> day dt_et = 3 \<and> candle_time > early_close self then None
         else if month dt_et = 11 \<and> is_fourth_friday dt_et \<and> candle_time > early_close self
           then None
         else if month dt_et = 12 \<and> day dt_et = 24 \<and> candle_time > early_close self then None
         else Some \<lparr>timestamp = timestamp_ms, datetime = strftime dt_et,
                    open = get_or (c_open candle) 0, high = get_or (c_high candle) 0,
                    low = get_or (c_low candle) 0, close = get_or (c_close candle) 0,
                    volume = get_or (c_volume candle) 0\<rparr>)"

text \<open>
  \<^verbatim>\<open>drop_duplicates(subset=['timestamp'])\<close> keeps, of the rows with one timestamp, the
  first in the order of the frame. \<open>seen\<close> holds the timestamps already kept.
\<close>

fun drop_duplicates_from :: "int list \<Rightarrow> bar list \<Rightarrow> bar list" where
  "drop_duplicates_from seen [] = []"
| "drop_duplicates_from seen (r # rs) =
     (if timestamp r \<in> set seen then drop_duplicates_from seen rs
      else r # drop_duplicates_from (timestamp r # seen) rs)"

definition drop_duplicates :: "bar list \<Rightarrow> bar list" where
  "drop_duplicates df = drop_duplicates_from [] df"

text \<open>
  \<^verbatim>\<open>sort_values('timestamp')\<close> sorts with the library's default algorithm, which is not
  stable: the order it leaves rows of equal timestamp in is not fixed by the source. The
  sort is therefore a parameter of \<open>process_candles\<close>, and \<open>sorts_by_timestamp\<close> says
  what every sort does: it permutes the rows and leaves the timestamps ascending.
  \<open>stable_sort_values\<close> is one such sort.
\<close>

definition sorts_by_timestamp :: "(bar list \<Rightarrow> bar list) \<Rightarrow> bool" where
  "sorts_by_timestamp sort_values =
     (\<forall>df. mset (sort_values df) = mset df \<and> sorted (map timestamp (sort_values df)))"

definition stable_sort_values :: "bar list \<Rightarrow> bar list" where
  "stable_sort_values df = sort_key timestamp df"

definition process_candles ::
  "(bar list \<Rightarrow> bar list) \<Rightarrow> MarketDataProcessor \<Rightarrow> candle list \<Rightarrow> bar list" where
  "process_candles sort_values self candles =
     (let df_data = List.map_filter (process_single_candle self) candles
      in if df_data = [] then [] else drop_duplicates (sort_values df_data))"

text \<open>
  A row of the cleaned frame read again as a provider record: the epoch timestamp goes
  back under the key \<^verbatim>\<open>datetime\<close>, the prices and the volume under their own keys.
\<close>

definition as_candle :: "bar \<Rightarrow> candle" where
  "as_candle r =
     \<lparr>c_datetime = Some (timestamp r), c_open = Some (open r), c_high = Some (high r),
      c_low = Some (low r), c_close = Some (close r), c_volume = Some (volume r)\<rparr>"

text \<open>Two fixed-offset timezones, Eastern daylight and standard time, for concrete instants.\<close>

definition EDT :: tzinfo where
  "EDT = (\<lambda>t. (- 14400, ''EDT''))"

definition EST :: tzinfo where
  "EST = (\<lambda>t. (- 18000, ''EST''))"

definition candle_at :: "int \<Rightarrow> rat \<Rightarrow> int \<Rightarrow> candle" where
  \<comment> \<open>a provider record with every key present, one price for the four price keys\<close>
  "candle_at t p v =
     \<lparr>c_datetime = Some t, c_open = Some p, c_high = Some p, c_low = Some p,
      c_close = Some p, c_volume = Some v\<rparr>"

text \<open>
  The four rejection tests of \<open>process_single_candle\<close> as one predicate of the
  processor and the epoch timestamp; \<open>process_single_candle_if\<close> below shows that the
  function is this test followed by the construction of the row.
\<close>

definition rejects :: "MarketDataProcessor \<Rightarrow> int \<Rightarrow> bool" where
  "rejects self t =
     (let dt_et = astimezone (timezone self) t; candle_time = time_ms dt_et
      in candle_time < market_open self \<or> candle_time > market_close self \<or>
         month dt_et = 7 \<and> day dt_et = 3 \<and> candle_time > early_close self \<or>
         month dt_et = 11 \<and> is_fourth_friday dt_et \<and> candle_time > early_close self \<or>
         month dt_et = 12 \<and> day dt_et = 24 \<and> candle_time > early_close self)"

text \<open>
  The session rule as the specification words it, with the close bound exclusive:
  accepted when 09:30:00 \<open>\<le>\<close> t \<open><\<close> 16:00:00, and t \<open>\<le>\<close> 13:00:00 on July 3rd, on
  the fourth Friday of November and on December 24th.
\<close>

definition spec_is_regular_session :: "local_datetime \<Rightarrow> bool" where
  "spec_is_regular_session dt =
     (hms 9 30 0 \<le> time_ms dt \<and> time_ms dt < hms 16 0 0 \<and>
      (month dt = 7 \<and> day dt = 3 \<or> month dt = 11 \<and> is_fourth_friday dt \<or>
       month dt = 12 \<and> day dt = 24 \<longrightarrow> time_ms dt \<le> hms 13 0 0))"

section \<open>DataQualityValidator\<close>

text \<open>
  The frame the validator receives is any DataFrame with the seven columns: a cell may be
  null (\<open>None\<close>). The validator returns a boolean and writes to the logger; the model
  returns the boolean together with the records logged, in order. A record is the level
  of the logging call and its message, the numbers formatted into the message kept as
  arguments.
\<close>

type_synonym cell_row = "(int option, string option, rat option, int option) row"

datatype level = INFO | WARNING | ERROR

datatype message =
    CannotValidate
  | RunningValidation
  | AllValidationsPassed
  | FoundDuplicateTimestamps nat
  | FoundDuplicateDatetime nat
  | SampleRows "(int option \<times> string option) list"
  | NoDuplicateTimestamps
  | NoDuplicateDatetime
  | FoundNullValues
  | NullCounts "(string \<times> nat) list"
  | NoNullValues
  | FoundNegativePrices nat
  | NoNegativePrices
  | FoundNonPositiveVolume nat
  | AllVolumePositive
  | TimestampsNotAscending
  | TimestampsAscending

type_synonym log = "(level \<times> message) list"

text \<open>
  \<^verbatim>\<open>df[df.duplicated(subset=[column], keep=False)]\<close>: the rows whose value in the column
  occurs in more than one row. Two null cells count as equal.
\<close>

definition duplicated :: "('r \<Rightarrow> 'k) \<Rightarrow> 'r list \<Rightarrow> 'r list" where
  "duplicated column df = filter (\<lambda>r. 1 < length (filter (\<lambda>x. column x = column r) df)) df"

definition check_duplicate_timestamps :: "cell_row list \<Rightarrow> bool \<times> log" where
  "check_duplicate_timestamps df =
     (let duplicate_timestamps = duplicated timestamp df
      in if duplicate_timestamps \<noteq> [] then
           (False, [(ERROR, FoundDuplicateTimestamps (length duplicate_timestamps)),
                    (ERROR, SampleRows (map (\<lambda>r. (timestamp r, datetime r))
                                          (take 5 duplicate_timestamps)))])
         else (True, [(INFO, NoDuplicateTimestamps)]))"

definition check_duplicate_datetime :: "cell_row list \<Rightarrow> bool \<times> log" where
  "check_duplicate_datetime df =
     (let duplicate_datetime = duplicated datetime df
      in if duplicate_datetime \<noteq> [] then
           (False, [(ERROR, FoundDuplicateDatetime (length duplicate_datetime)),
                    (ERROR, SampleRows (map (\<lambda>r. (timestamp r, datetime r))
                                          (take 5 duplicate_datetime)))])
         else (True, [(INFO, NoDuplicateDatetime)]))"

definition isnull_sum :: "('r \<Rightarrow> 'c option) \<Rightarrow> 'r list \<Rightarrow> nat" where
  "isnull_sum column df = length (filter (\<lambda>r. column r = None) df)"

definition check_null_values :: "cell_row list \<Rightarrow> bool \<times> log" where
  "check_null_values df =
     (let null_counts =
            [(''timestamp'', isnull_sum timestamp df), (''datetime'', isnull_sum datetime df),
             (''open'', isnull_sum open df), (''high'', isnull_sum high df),
             (''low'', isnull_sum low df), (''close'', isnull_sum close df),
             (''volume'', isnull_sum volume df)]
      in if sum_list (map snd null_counts) > 0 then
           (True, [(WARNING, FoundNullValues),
                   (WARNING, NullCounts (filter (\<lambda>c. snd c > 0) null_counts))])
         else (True, [(INFO, NoNullValues)]))"

definition is_negative :: "rat option \<Rightarrow> bool" where
  \<comment> \<open>\<^verbatim>\<open>cell < 0\<close>; a comparison with a null cell is false\<close>
  "is_negative cell = (case cell of None \<Rightarrow> False | Some p \<Rightarrow> p < 0)"

definition check_negative_prices :: "cell_row list \<Rightarrow> bool \<times> log" where
  "check_negative_prices df =
     (let negative_prices =
            filter (\<lambda>r. is_negative (open r) \<or> is_negative (high r) \<or>
                        is_negative (low r) \<or> is_negative (close r)) df
      in if negative_prices \<noteq> [] then
           (False, [(ERROR, FoundNegativePrices (length negative_prices))])
         else (True, [(INFO, NoNegativePrices)]))"

definition check_volume_values :: "cell_row list \<Rightarrow> bool \<times> log" where
  "check_volume_values df =
     (let zero_volume = filter (\<lambda>r. case volume r of None \<Rightarrow> False | Some v \<Rightarrow> v \<le> 0) df
      in if zero_volume \<noteq> [] then
           (True, [(WARNING, FoundNonPositiveVolume (length zero_volume))])
         else (True, [(INFO, AllVolumePositive)]))"

text \<open>
  \<^verbatim>\<open>Series.is_monotonic_increasing\<close> of the library: every value is at least the one
  before it, and no value is null (a null compares as neither less, greater nor equal,
  also when it is the only value).
\<close>

fun is_monotonic_increasing :: "int option list \<Rightarrow> bool" where
  "is_monotonic_increasing [] = True"
| "is_monotonic_increasing [x] = (x \<noteq> None)"
| "is_monotonic_increasing (x # y # zs) =
     (case (x, y) of
        (Some a, Some b) \<Rightarrow> a \<le> b \<and> is_monotonic_increasing (y # zs)
      | _ \<Rightarrow> False)"

definition check_timestamp_ordering :: "cell_row list \<Rightarrow> bool \<times> log" where
  "check_timestamp_ordering df =
     (if \<not> is_monotonic_increasing (map timestamp df) then (False, [(ERROR, TimestampsNotAscending)])
      else (True, [(INFO, TimestampsAscending)]))"

definition validations :: "(cell_row list \<Rightarrow> bool \<times> log) list" where
  "validations =
     [check_duplicate_timestamps, check_duplicate_datetime, check_null_values,
      check_negative_prices, check_volume_values, check_timestamp_ordering]"

text \<open>
  The loop \<^verbatim>\<open>for validation in validations: if not validation(df): return False\<close>,
  with the records logged so far in \<open>logged\<close>.
\<close>

fun run_validations ::
  "(cell_row list \<Rightarrow> bool \<times> log) list \<Rightarrow> cell_row list \<Rightarrow> log \<Rightarrow> bool \<times> log" where
  "run_validations [] df logged = (True, logged @ [(INFO, AllValidationsPassed)])"
| "run_validations (validation # rest) df logged =
     (if \<not> fst (validation df) then (False, logged @ snd (validation df))
      else run_validations rest df (logged @ snd (validation df)))"

definition validate_dataframe :: "cell_row list option \<Rightarrow> bool \<times> log" where
  "validate_dataframe df =
     (case df of
        None \<Rightarrow> (False, [(ERROR, CannotValidate)])
      | Some rows \<Rightarrow>
          if rows = [] then (False, [(ERROR, CannotValidate)])
          else run_validations validations rows [(INFO, RunningValidation)])"

definition cells :: "int \<Rightarrow> string \<Rightarrow> rat \<Rightarrow> int \<Rightarrow> cell_row" where
  \<comment> \<open>a row without null cells, one price for the four price columns\<close>
  "cells t d p v =
     \<lparr>timestamp = Some t, datetime = Some d, open = Some p, high = Some p, low = Some p,
      close = Some p, volume = Some v\<rparr>"

text \<open>
  The outcome as the specification words it, where a null cell never counts against the
  frame: the frame is not empty, no epoch timestamp and no datetime string that is
  present occurs twice, no price is negative, and the timestamps that are present are
  non-decreasing in the order given.
\<close>

definition present :: "'a option list \<Rightarrow> 'a list" where
  "present column = List.map_filter (\<lambda>cell. cell) column"

definition spec_passed :: "cell_row list \<Rightarrow> bool" where
  "spec_passed df =
     (df \<noteq> [] \<and> distinct (present (map timestamp df)) \<and> distinct (present (map datetime df)) \<and>
      (\<forall>r \<in> set df. \<not> is_negative (open r) \<and> \<not> is_negative (high r) \<and>
                     \<not> is_negative (low r) \<and> \<not> is_negative (close r)) \<and>
      sorted (present (map timestamp df)))"

section \<open>Aggregator\<close>

text \<open>
  \<^verbatim>\<open>aggregate_market_data\<close> of \<^verbatim>\<open>market_data_aggregator.py\<close>, from the frame as
  \<^verbatim>\<open>read_csv\<close> and \<^verbatim>\<open>to_datetime\<close> deliver it (reading and parsing the file is not
  modelled): every cell is present, and the index \<open>datetime\<close> is the parsed local
  wall-clock time, in seconds since 1970-01-01 00:00:00 of that clock. The result is the
  frame that is written to the output file, its \<open>datetime\<close> the label of the bucket.
\<close>

type_synonym indexed_row = "(int, int, rat, int) row"

definition clock :: "int \<Rightarrow> int \<Rightarrow> int" where
  \<comment> \<open>\<^verbatim>\<open>pd.Timestamp('HH:MM').time()\<close>, in seconds since midnight\<close>
  "clock h m = (h * 60 + m) * 60"

definition index_time :: "indexed_row \<Rightarrow> int" where
  \<comment> \<open>\<^verbatim>\<open>df.index.time\<close>\<close>
  "index_time r = datetime r mod 86400"

definition within_market_hours :: "indexed_row \<Rightarrow> bool" where
  "within_market_hours r = (index_time r \<ge> clock 9 30 \<and> index_time r < clock 16 0)"

definition timeframe_mapping :: "(string \<times> string) list" where
  "timeframe_mapping =
     [(''1m'', ''1min''), (''3m'', ''3min''), (''5m'', ''5min''), (''10m'', ''10min''),
      (''15m'', ''15min''), (''30m'', ''30min''), (''1h'', ''1H''), (''1d'', ''1D'')]"

text \<open>
  The length in seconds of the buckets of a resampling rule. Only the rules that
  \<open>timeframe_mapping\<close> produces are modelled; on any other string (an unrecognised
  label passes through to the library as it is) the model gives \<open>None\<close>.
\<close>

definition offset_seconds :: "string \<Rightarrow> int option" where
  "offset_seconds rule =
     map_of [(''1min'', 60), (''3min'', 180), (''5min'', 300), (''10min'', 600),
             (''15min'', 900), (''30min'', 1800), (''1H'', 3600), (''1D'', 86400)] rule"

text \<open>
  \<^verbatim>\<open>df.resample(rule)\<close> with the defaults (bins closed and labelled on the left,
  aligned to midnight, which for these rules is alignment to the multiples of the bucket
  length): the rows are put in index order by a stable sort, and there is one bin for each
  multiple of \<open>freq\<close> from the bin of the first row to the bin of the last, empty bins
  included. A bin is its label and its rows.
\<close>

definition resample :: "int \<Rightarrow> indexed_row list \<Rightarrow> (int \<times> indexed_row list) list" where
  "resample freq df =
     (if df = [] then []
      else let ordered = sort_key datetime df;
               first_bin = datetime (hd ordered) div freq;
               last_bin = datetime (last ordered) div freq
           in map (\<lambda>k. (k * freq, filter (\<lambda>r. datetime r div freq = k) ordered))
                [first_bin..last_bin])"

definition agg_first :: "'a list \<Rightarrow> 'a option" where
  "agg_first xs = (case xs of [] \<Rightarrow> None | x # _ \<Rightarrow> Some x)"

definition agg_last :: "'a list \<Rightarrow> 'a option" where
  "agg_last xs = (if xs = [] then None else Some (last xs))"

definition agg_max :: "rat list \<Rightarrow> rat option" where
  "agg_max xs = (case xs of [] \<Rightarrow> None | x # rest \<Rightarrow> Some (fold max rest x))"

definition agg_min :: "rat list \<Rightarrow> rat option" where
  "agg_min xs = (case xs of [] \<Rightarrow> None | x # rest \<Rightarrow> Some (fold min rest x))"

text \<open>
  The aggregation of one bin: \<^verbatim>\<open>first\<close>, \<^verbatim>\<open>max\<close>, \<^verbatim>\<open>min\<close> and \<^verbatim>\<open>last\<close> of an
  empty bin are null, \<^verbatim>\<open>sum\<close> of an empty bin is 0.
\<close>

definition agg :: "int \<times> indexed_row list \<Rightarrow> (int option, int, rat option, int) row" where
  "agg bin =
     \<lparr>timestamp = agg_first (map timestamp (snd bin)), datetime = fst bin,
      open = agg_first (map open (snd bin)), high = agg_max (map high (snd bin)),
      low = agg_min (map low (snd bin)), close = agg_last (map close (snd bin)),
      volume = sum_list (map volume (snd bin))\<rparr>"

definition dropna ::
  "(int option, int, rat option, int) row list \<Rightarrow> (int option, int, rat option, int) row list" where
  \<comment> \<open>\<^verbatim>\<open>dropna(subset=['open', 'high', 'low', 'close'])\<close>\<close>
  "dropna df = filter (\<lambda>r. open r \<noteq> None \<and> high r \<noteq> None \<and> low r \<noteq> None \<and> close r \<noteq> None) df"

definition to_output :: "(int option, int, rat option, int) row \<Rightarrow> indexed_row option" where
  \<comment> \<open>the row as written: \<^verbatim>\<open>timestamp\<close> converted back to an integer\<close>
  "to_output r =
     (case (timestamp r, open r, high r, low r, close r) of
        (Some t, Some op, Some hi, Some lo, Some cl) \<Rightarrow>
          Some \<lparr>timestamp = t, datetime = datetime r, open = op, high = hi, low = lo,
                close = cl, volume = volume r\<rparr>
      | _ \<Rightarrow> None)"

definition to_timeframe_pandas :: "string \<Rightarrow> string" where
  \<comment> \<open>\<^verbatim>\<open>timeframe_mapping.get(to_timeframe, to_timeframe)\<close>\<close>
  "to_timeframe_pandas to_timeframe =
     (case map_of timeframe_mapping to_timeframe of
        Some rule \<Rightarrow> rule | None \<Rightarrow> to_timeframe)"

definition aggregate_market_data :: "string \<Rightarrow> indexed_row list \<Rightarrow> indexed_row list option" where
  "aggregate_market_data to_timeframe df0 =
     (let df = filter within_market_hours df0
      in case offset_seconds (to_timeframe_pandas to_timeframe) of
           None \<Rightarrow> None
         | Some freq \<Rightarrow> Some (List.map_filter to_output (dropna (map agg (resample freq df)))))"

text \<open>
  The aggregation as the specification words it. The bucket of a bar is the multiple of
  the bucket length at or before its time; the bar of a bucket takes the timestamp and
  the open of the first bar in it, the maximum high, the minimum low, the close of the
  last bar and the sum of the volumes; there is one bar for each bucket that holds a bar,
  in the order of the buckets.
\<close>

definition bucket_of :: "int \<Rightarrow> indexed_row \<Rightarrow> int" where
  "bucket_of freq r = datetime r div freq"

definition bucket_rows :: "int \<Rightarrow> int \<Rightarrow> indexed_row list \<Rightarrow> indexed_row list" where
  "bucket_rows freq k df = filter (\<lambda>r. bucket_of freq r = k) df"

definition bucket_bar :: "int \<Rightarrow> int \<Rightarrow> indexed_row list \<Rightarrow> indexed_row" where
  "bucket_bar freq k rows =
     \<lparr>timestamp = timestamp (hd rows), datetime = k * freq, open = open (hd rows),
      high = Max (set (map high rows)), low = Min (set (map low rows)),
      close = close (last rows), volume = sum_list (map volume rows)\<rparr>"

definition spec_aggregate :: "int \<Rightarrow> indexed_row list \<Rightarrow> indexed_row list" where
  "spec_aggregate freq df =
     map (\<lambda>k. bucket_bar freq k (bucket_rows freq k df))
       (sorted_list_of_set (bucket_of freq ` set df))"

definition ohlcv :: "int \<Rightarrow> int \<Rightarrow> rat \<Rightarrow> rat \<Rightarrow> rat \<Rightarrow> rat \<Rightarrow> int \<Rightarrow> indexed_row" where
  "ohlcv t d op hi lo cl v =
     \<lparr>timestamp = t, datetime = d, open = op, high = hi, low = lo, close = cl, volume = v\<rparr>"

section \<open>SchwabMarketDataClient\<close>

text \<open>
  The fetch of a date range in chunks. A timezone-aware datetime is modelled by the
  instant it denotes, in microseconds since the epoch: the source compares and subtracts
  aware datetimes, which compares and subtracts their instants, and
  \<^verbatim>\<open>dt + timedelta(days=n)\<close> keeps the fixed offset of \<open>dt\<close>, so it adds \<open>n\<close>
  times 24 hours. \<^verbatim>\<open>(end_dt - current_start_dt).days\<close> is the whole days of the
  difference, rounded down. The dates arrive parsed and localised (\<^verbatim>\<open>_parse_dates\<close> is
  not modelled).
\<close>

definition DAY :: int where
  "DAY = 86400000000"

definition epoch_ms :: "int \<Rightarrow> int" where
  \<comment> \<open>\<^verbatim>\<open>int(dt.timestamp() * 1000)\<close>: truncation towards zero\<close>
  "epoch_ms dt = (if 0 \<le> dt then dt div 1000 else - ((- dt) div 1000))"

text \<open>
  One request to the provider: the URL, the bearer token and the query parameters
  \<^verbatim>\<open>symbol\<close>, \<^verbatim>\<open>period\<close>, \<^verbatim>\<open>frequency\<close>, \<^verbatim>\<open>startDate\<close>, \<^verbatim>\<open>endDate\<close> (the other
  parameters are constants). The HTTP transport is not part of the repository: it is a
  function from the request to what \<^verbatim>\<open>requests.get\<close> does, which either raises or
  returns a status code and a body. The body is \<open>None\<close> when it is not JSON
  (\<^verbatim>\<open>response.json()\<close> raises), and otherwise the value under the key \<^verbatim>\<open>candles\<close>,
  \<open>None\<close> when the key is absent.
\<close>

record request =
  q_url :: string
  q_bearer :: string
  q_symbol :: string
  q_period :: int
  q_frequency :: int
  q_startDate :: int
  q_endDate :: int

datatype response = RequestException | Response int "candle list option option"

definition period_request ::
  "string \<Rightarrow> string \<Rightarrow> string \<Rightarrow> int \<Rightarrow> int \<Rightarrow> int \<Rightarrow> int \<Rightarrow> request" where
  "period_request server token symbol start_dt end_dt period time_interval =
     \<lparr>q_url = server @ ''/pricehistory'', q_bearer = token, q_symbol = symbol,
      q_period = period, q_frequency = time_interval,
      q_startDate = epoch_ms start_dt, q_endDate = epoch_ms end_dt\<rparr>"

text \<open>
  What \<^verbatim>\<open>_fetch_period\<close> returns for a response: \<open>None\<close> (the Python \<^verbatim>\<open>None\<close>) on a
  raised exception, on a status other than 200 and on a body that is not JSON; the
  candles, or the empty list when there are none, on status 200.
\<close>

definition fetched :: "response \<Rightarrow> candle list option" where
  "fetched r =
     (case r of
        RequestException \<Rightarrow> None
      | Response status_code json \<Rightarrow>
          if status_code = 200 then
            (case json of
               None \<Rightarrow> None
             | Some data \<Rightarrow>
                 (case data of
                    Some candles \<Rightarrow> if candles \<noteq> [] then Some candles else Some []
                  | None \<Rightarrow> Some []))
          else None)"

definition fetch_period ::
  "(request \<Rightarrow> response) \<Rightarrow> string \<Rightarrow> string \<Rightarrow> string \<Rightarrow> int \<Rightarrow> int \<Rightarrow> int \<Rightarrow> int
     \<Rightarrow> candle list option" where
  "fetch_period http_get server token symbol start_dt end_dt period time_interval =
     fetched (http_get (period_request server token symbol start_dt end_dt period time_interval))"

definition days_remaining :: "int \<Rightarrow> int \<Rightarrow> int" where
  \<comment> \<open>\<^verbatim>\<open>(end_dt - current_start_dt).days + 1\<close>\<close>
  "days_remaining end_dt current_start_dt = (end_dt - current_start_dt) div DAY + 1"

definition period_end :: "int \<Rightarrow> int \<Rightarrow> int \<Rightarrow> int" where
  "period_end end_dt current_start_dt period =
     (let period_end_dt = current_start_dt + (period - 1) * DAY
      in if period_end_dt > end_dt then end_dt else period_end_dt)"

definition next_start :: "int \<Rightarrow> int \<Rightarrow> int" where
  \<comment> \<open>the start pointer after one iteration: \<^verbatim>\<open>period_end_dt + timedelta(days=1)\<close>\<close>
  "next_start end_dt current_start_dt =
     period_end end_dt current_start_dt
       (get_optimal_period (days_remaining end_dt current_start_dt)) + DAY"

lemma next_start_advances:
  "current_start_dt \<le> end_dt \<Longrightarrow> current_start_dt + DAY \<le> next_start end_dt current_start_dt"
proof -
  assume le: "current_start_dt \<le> end_dt"
  have "0 \<le> (end_dt - current_start_dt) div DAY"
    using le by (simp add: DAY_def pos_imp_zdiv_nonneg_iff)
  then have "1 \<le> days_remaining end_dt current_start_dt"
    by (simp add: days_remaining_def)
  then have "1 \<le> get_optimal_period (days_remaining end_dt current_start_dt)"
    by (simp add: get_optimal_period_def VALID_PERIODS_def)
  then have "0 \<le> (get_optimal_period (days_remaining end_dt current_start_dt) - 1) * DAY"
    by (simp add: DAY_def)
  with le show ?thesis
    by (simp add: next_start_def period_end_def Let_def)
qed

text \<open>
  The loop of \<^verbatim>\<open>_fetch_all_periods\<close>. Its state is the start pointer and the candles
  accumulated; \<open>sent\<close> records the requests issued so far, in order, and is returned
  with the result.
\<close>

function fetch_all_periods_loop ::
  "(request \<Rightarrow> response) \<Rightarrow> string \<Rightarrow> string \<Rightarrow> string \<Rightarrow> int \<Rightarrow> int \<Rightarrow> int \<Rightarrow> candle list
     \<Rightarrow> request list \<Rightarrow> request list \<times> candle list" where
  "fetch_all_periods_loop http_get server token symbol end_dt time_interval current_start_dt
     all_candles sent =
     (if current_start_dt \<le> end_dt then
        (if get_optimal_period (days_remaining end_dt current_start_dt) = 0
         then (sent, all_candles)
         else
           (case fetch_period http_get server token symbol current_start_dt
                   (period_end end_dt current_start_dt
                      (get_optimal_period (days_remaining end_dt current_start_dt)))
                   (get_optimal_period (days_remaining end_dt current_start_dt)) time_interval of
              None \<Rightarrow>
                (sent @ [period_request server token symbol current_start_dt
                           (period_end end_dt current_start_dt
                              (get_optimal_period (days_remaining end_dt current_start_dt)))
                           (get_optimal_period (days_remaining end_dt current_start_dt))
                           time_interval], [])
            | Some candles \<Rightarrow>
                fetch_all_periods_loop http_get server token symbol end_dt time_interval
                  (next_start end_dt current_start_dt) (all_candles @ candles)
                  (sent @ [period_request server token symbol current_start_dt
                             (period_end end_dt current_start_dt
                                (get_optimal_period (days_remaining end_dt current_start_dt)))
                             (get_optimal_period (days_remaining end_dt current_start_dt))
                             time_interval])))
      else (sent, all_candles))"
  by pat_completeness auto
termination
proof (relation "measure (\<lambda>(http_get, server, token, symbol, end_dt, time_interval,
    current_start_dt, all_candles, sent). nat (end_dt - current_start_dt + 1))")
  show "wf (measure (\<lambda>(http_get, server, token, symbol, end_dt, time_interval,
    current_start_dt, all_candles, sent). nat (end_dt - current_start_dt + 1)))"
    by simp
next
  fix http_get :: "request \<Rightarrow> response" and server token symbol :: string
    and end_dt time_interval current_start_dt :: int
    and all_candles :: "candle list" and sent :: "request list" and x2 :: "candle list"
  assume le: "current_start_dt \<le> end_dt"
  from next_start_advances [OF le] have "current_start_dt < next_start end_dt current_start_dt"
    by (simp add: DAY_def)
  with le show "((http_get, server, token, symbol, end_dt, time_interval,
        next_start end_dt current_start_dt, all_candles @ x2,
        sent @ [period_request server token symbol current_start_dt
                  (period_end end_dt current_start_dt
                     (get_optimal_period (days_remaining end_dt current_start_dt)))
                  (get_optimal_period (days_remaining end_dt current_start_dt)) time_interval]),
       (http_get, server, token, symbol, end_dt, time_interval, current_start_dt,
        all_candles, sent))
      \<in> measure (\<lambda>(http_get, server, token, symbol, end_dt, time_interval,
          current_start_dt, all_candles, sent). nat (end_dt - current_start_dt + 1))"
    by simp
qed

definition fetch_all_periods ::
  "(request \<Rightarrow> response) \<Rightarrow> string \<Rightarrow> string \<Rightarrow> string \<Rightarrow> int \<Rightarrow> int \<Rightarrow> int
     \<Rightarrow> request list \<times> candle list" where
  "fetch_all_periods http_get server token symbol start_dt end_dt time_interval =
     fetch_all_periods_loop http_get server token symbol end_dt time_interval start_dt [] []"

text \<open>
  The client: the API server, the token the authentication module delivers (\<open>None\<close> when
  it delivers none), the transport, the processor and the sort of the processor's frame.
\<close>

record SchwabMarketDataClient =
  api_server :: string
  auth_token :: "string option"
  transport :: "request \<Rightarrow> response"
  processor :: MarketDataProcessor
  frame_sort :: "bar list \<Rightarrow> bar list"

definition get_valid_access_token :: "SchwabMarketDataClient \<Rightarrow> string option" where
  "get_valid_access_token self =
     (case auth_token self of
        None \<Rightarrow> None
      | Some token \<Rightarrow> if token = [] then None else Some token)"

definition validate_inputs :: "SchwabMarketDataClient \<Rightarrow> string \<Rightarrow> int \<Rightarrow> bool" where
  "validate_inputs self symbol time_interval =
     (if time_interval \<notin> set [1, 5, 10, 15, 30] then False
      else if symbol = [] then False
      else if get_valid_access_token self = None then False
      else True)"

text \<open>
  \<^verbatim>\<open>get_price_history\<close>: the requests issued, and the value returned, \<open>None\<close> for the
  Python \<^verbatim>\<open>None\<close> ("None if failed").
\<close>

definition get_price_history ::
  "SchwabMarketDataClient \<Rightarrow> string \<Rightarrow> int \<Rightarrow> int \<Rightarrow> int \<Rightarrow> request list \<times> bar list option" where
  "get_price_history self symbol start_dt end_dt time_interval =
     (if \<not> validate_inputs self symbol time_interval then ([], None)
      else
        (case fetch_all_periods (transport self) (api_server self)
                (get_or (get_valid_access_token self) []) symbol start_dt end_dt time_interval of
           (sent, all_candles) \<Rightarrow>
             if all_candles = [] then (sent, None)
             else (sent, Some (process_candles (frame_sort self) (processor self) all_candles))))"

text \<open>
  A chunk request fails when the transport raises or the status is not 2xx.
\<close>

definition failed :: "response \<Rightarrow> bool" where
  "failed r =
     (case r of
        RequestException \<Rightarrow> True
      | Response status_code json \<Rightarrow> \<not> (200 \<le> status_code \<and> status_code < 300))"

text \<open>
  A transport that answers the request starting at \<open>start_ms\<close> with \<open>r\<close> and every
  other request with status 200 and one candle, ten hours after the start of the chunk;
  and a client over a transport, with a token, in Eastern daylight time.
\<close>

definition answering :: "int \<Rightarrow> response \<Rightarrow> request \<Rightarrow> response" where
  "answering start_ms r rq =
     (if q_startDate rq = start_ms then r
      else Response 200 (Some (Some [candle_at (q_startDate rq + 36000000) 1 1])))"

definition client_with :: "(request \<Rightarrow> response) \<Rightarrow> SchwabMarketDataClient" where
  "client_with http =
     \<lparr>api_server = ''https://api.schwabapi.com/marketdata/v1'', auth_token = Some ''token'',
      transport = http, processor = MarketDataProcessor_init EDT,
      frame_sort = stable_sort_values\<rparr>"

section \<open>Properties of the period optimizer\<close>

lemma get_optimal_period_cases:
  "get_optimal_period d =
     (if 10 \<le> d then 10 else if 5 \<le> d then 5 else if 4 \<le> d then 4
      else if 3 \<le> d then 3 else if 2 \<le> d then 2 else if 1 \<le> d then 1 else 0)"
  by (simp add: get_optimal_period_def VALID_PERIODS_def)

lemma get_optimal_period_nonneg: "0 \<le> get_optimal_period d"
  by (simp add: get_optimal_period_cases)

lemma get_optimal_period_pos: "1 \<le> d \<Longrightarrow> 1 \<le> get_optimal_period d"
  by (simp add: get_optimal_period_cases)

lemma get_optimal_period_le: "1 \<le> d \<Longrightarrow> get_optimal_period d \<le> d"
  by (simp add: get_optimal_period_cases)

text \<open>
  Claim C7. For every \<open>days_remaining \<ge> 1\<close> the optimizer returns a member of the
  candidate list \<open>[10, 5, 4, 3, 2, 1]\<close> that does not exceed \<open>days_remaining\<close> and
  that no fitting candidate exceeds (the largest fitting candidate); for every
  \<open>days_remaining \<le> 0\<close> it returns 0.
\<close>

theorem get_optimal_period_largest_fitting:
  "(1 \<le> d \<longrightarrow>
      get_optimal_period d \<in> set VALID_PERIODS \<and> get_optimal_period d \<le> d \<and>
      (\<forall>p \<in> set VALID_PERIODS. p \<le> d \<longrightarrow> p \<le> get_optimal_period d)) \<and>
   (d \<le> 0 \<longrightarrow> get_optimal_period d = 0)"
proof -
  have fits: "1 \<le> d \<Longrightarrow> get_optimal_period d \<in> set VALID_PERIODS"
    by (simp add: get_optimal_period_cases VALID_PERIODS_def)
  have largest: "\<forall>p \<in> set VALID_PERIODS. p \<le> d \<longrightarrow> p \<le> get_optimal_period d"
    by (simp add: get_optimal_period_cases VALID_PERIODS_def)
  have none: "d \<le> 0 \<Longrightarrow> get_optimal_period d = 0"
    by (simp add: get_optimal_period_cases)
  from fits largest none get_optimal_period_le show ?thesis by blast
qed

theorem get_optimal_period_largest_fitting_witness:
  "get_optimal_period 7 = 5 \<and> get_optimal_period 23 = 10 \<and> get_optimal_period 3 = 3 \<and>
   get_optimal_period 0 = 0 \<and> get_optimal_period (- 4) = 0"
proof -
  have a: "get_optimal_period 7 = 5"
    using get_optimal_period_largest_fitting [of 7] by (auto simp: VALID_PERIODS_def)
  have b: "get_optimal_period 23 = 10"
    using get_optimal_period_largest_fitting [of 23] by (auto simp: VALID_PERIODS_def)
  have c: "get_optimal_period 3 = 3"
    using get_optimal_period_largest_fitting [of 3] by (auto simp: VALID_PERIODS_def)
  have d: "get_optimal_period 0 = 0"
    using get_optimal_period_largest_fitting [of 0] by simp
  have e: "get_optimal_period (- 4) = 0"
    using get_optimal_period_largest_fitting [of "- 4"] by simp
  from a b c d e show ?thesis by simp
qed

section \<open>Properties of the session filter\<close>

lemma fridays_of_chronological:
  "sorted (fridays_of y m) \<and> distinct (fridays_of y m) \<and>
   set (fridays_of y m) = {d. 1 \<le> d \<and> d \<le> monthrange y m \<and> weekday y m d = 4}"
  by (auto simp: fridays_of_def sorted_wrt_filter)

lemma process_single_candle_if:
  "process_single_candle self c =
     (if rejects self (get_or (c_datetime c) 0) then None
      else Some \<lparr>timestamp = get_or (c_datetime c) 0,
                 datetime = strftime (astimezone (timezone self) (get_or (c_datetime c) 0)),
                 open = get_or (c_open c) 0, high = get_or (c_high c) 0,
                 low = get_or (c_low c) 0, close = get_or (c_close c) 0,
                 volume = get_or (c_volume c) 0\<rparr>)"
  unfolding process_single_candle_def rejects_def Let_def by simp

text \<open>
  What the filter of the processor accepts. A candle is kept exactly when its
  exchange-local time of day t satisfies 09:30:00 \<open>\<le>\<close> t \<open>\<le>\<close> 16:00:00 (the code
  rejects only times strictly after the close) and, on July 3rd, on the fourth Friday of
  November (the fourth element of \<open>fridays_of\<close>, the month's Fridays in chronological
  order) and on December 24th, t \<open>\<le>\<close> 13:00:00.
\<close>

theorem process_single_candle_accepts_iff:
  "(process_single_candle (MarketDataProcessor_init tz) candle \<noteq> None) =
     (let dt = astimezone tz (get_or (c_datetime candle) 0); t = time_ms dt
      in hms 9 30 0 \<le> t \<and> t \<le> hms 16 0 0 \<and>
         (month dt = 7 \<and> day dt = 3 \<or> month dt = 11 \<and> is_fourth_friday dt \<or>
          month dt = 12 \<and> day dt = 24 \<longrightarrow> t \<le> hms 13 0 0)) \<and>
   is_fourth_friday date =
     (4 \<le> length (fridays_of (year date) (month date)) \<and>
      day date = fridays_of (year date) (month date) ! 3) \<and>
   sorted (fridays_of y m) \<and> distinct (fridays_of y m) \<and>
   set (fridays_of y m) = {d. 1 \<le> d \<and> d \<le> monthrange y m \<and> weekday y m d = 4}"
proof -
  have "(process_single_candle (MarketDataProcessor_init tz) candle \<noteq> None) =
     (let dt = astimezone tz (get_or (c_datetime candle) 0); t = time_ms dt
      in hms 9 30 0 \<le> t \<and> t \<le> hms 16 0 0 \<and>
         (month dt = 7 \<and> day dt = 3 \<or> month dt = 11 \<and> is_fourth_friday dt \<or>
          month dt = 12 \<and> day dt = 24 \<longrightarrow> t \<le> hms 13 0 0))"
    unfolding process_single_candle_def MarketDataProcessor_init_def Let_def
    by (simp add: not_less)
  moreover have "is_fourth_friday date =
     (4 \<le> length (fridays_of (year date) (month date)) \<and>
      day date = fridays_of (year date) (month date) ! 3)"
    by (simp add: is_fourth_friday_def Let_def)
  ultimately show ?thesis using fridays_of_chronological [of y m] by blast
qed

text \<open>
  The boundary instants of the session on Monday 2025-06-02 and of the three early
  closes of 2025 (July 3rd, Friday November 28th, Wednesday December 24th), and Friday
  November 21st, which is the third Friday of the month's four.
\<close>

theorem process_single_candle_accepts_iff_witness:
  "process_single_candle (MarketDataProcessor_init EDT) (candle_at 1748870999999 1 1) = None \<and>
   process_single_candle (MarketDataProcessor_init EDT) (candle_at 1748871000000 1 1) \<noteq> None \<and>
   process_single_candle (MarketDataProcessor_init EDT) (candle_at 1748894400000 1 1) \<noteq> None \<and>
   process_single_candle (MarketDataProcessor_init EDT) (candle_at 1748894400001 1 1) = None \<and>
   process_single_candle (MarketDataProcessor_init EDT) (candle_at 1751562000000 1 1) \<noteq> None \<and>
   process_single_candle (MarketDataProcessor_init EDT) (candle_at 1751562001000 1 1) = None \<and>
   process_single_candle (MarketDataProcessor_init EST) (candle_at 1764352801000 1 1) = None \<and>
   process_single_candle (MarketDataProcessor_init EST) (candle_at 1763751600000 1 1) \<noteq> None \<and>
   process_single_candle (MarketDataProcessor_init EST) (candle_at 1766599201000 1 1) = None \<and>
   fridays_of 2025 11 = [7, 14, 21, 28]"
proof -
  have j: "fridays_of 2025 11 = [7, 14, 21, 28]" by code_simp
  have a: "process_single_candle (MarketDataProcessor_init EDT) (candle_at 1748870999999 1 1) = None"
    using process_single_candle_accepts_iff [of EDT "candle_at 1748870999999 1 1", THEN conjunct1] by code_simp
  have b: "process_single_candle (MarketDataProcessor_init EDT) (candle_at 1748871000000 1 1) \<noteq> None"
    using process_single_candle_accepts_iff [of EDT "candle_at 1748871000000 1 1", THEN conjunct1] by code_simp
  have c: "process_single_candle (MarketDataProcessor_init EDT) (candle_at 1748894400000 1 1) \<noteq> None"
    using process_single_candle_accepts_iff [of EDT "candle_at 1748894400000 1 1", THEN conjunct1] by code_simp
  have d: "process_single_candle (MarketDataProcessor_init EDT) (candle_at 1748894400001 1 1) = None"
    using process_single_candle_accepts_iff [of EDT "candle_at 1748894400001 1 1", THEN conjunct1] by code_simp
  have e: "process_single_candle (MarketDataProcessor_init EDT) (candle_at 1751562000000 1 1) \<noteq> None"
    using process_single_candle_accepts_iff [of EDT "candle_at 1751562000000 1 1", THEN conjunct1] by code_simp
  have f: "process_single_candle (MarketDataProcessor_init EDT) (candle_at 1751562001000 1 1) = None"
    using process_single_candle_accepts_iff [of EDT "candle_at 1751562001000 1 1", THEN conjunct1] by code_simp
  have g: "process_single_candle (MarketDataProcessor_init EST) (candle_at 1764352801000 1 1) = None"
    using process_single_candle_accepts_iff [of EST "candle_at 1764352801000 1 1", THEN conjunct1] by code_simp
  have h: "process_single_candle (MarketDataProcessor_init EST) (candle_at 1763751600000 1 1) \<noteq> None"
    using process_single_candle_accepts_iff [of EST "candle_at 1763751600000 1 1", THEN conjunct1] by code_simp
  have i: "process_single_candle (MarketDataProcessor_init EST) (candle_at 1766599201000 1 1) = None"
    using process_single_candle_accepts_iff [of EST "candle_at 1766599201000 1 1", THEN conjunct1] by code_simp
  from a b c d e f g h i j show ?thesis by blast
qed

text \<open>
  At the close the filter and the session rule of the specification part: the candle
  stamped 2025-06-02 16:00:00 EDT (epoch 1748894400000) is accepted by the code, and
  rejected by the rule with the exclusive close bound.
\<close>

theorem close_bound_counterexample:
  "\<not> ((process_single_candle (MarketDataProcessor_init EDT) (candle_at 1748894400000 1 1) \<noteq> None) =
       spec_is_regular_session
         (astimezone EDT (get_or (c_datetime (candle_at 1748894400000 1 1)) 0)))"
  by code_simp

text \<open>
  Claim C1. The session predicate is to reject a candle at exactly 16:00:00 local time
  (the close bound is exclusive). The processor does not: the raw candle with epoch
  1748894400000, which is 2025-06-02 16:00:00 in Eastern daylight time, is kept and comes
  out as a row of the cleaned frame. The aggregator of the same repository, filtering
  the same market hours, drops the bar with that local time.
\<close>

theorem closing_candle_kept:
  "process_single_candle (MarketDataProcessor_init EDT) (candle_at 1748894400000 1 1) =
     Some \<lparr>timestamp = 1748894400000, datetime = ''2025-06-02 16:00:00 EDT'',
           open = 1, high = 1, low = 1, close = 1, volume = 1\<rparr> \<and>
   time_ms (astimezone EDT 1748894400000) = hms 16 0 0 \<and>
   aggregate_market_data ''1m'' [ohlcv 1748894400000 1748880000 1 1 1 1 1] = Some []"
proof -
  have a: "process_single_candle (MarketDataProcessor_init EDT) (candle_at 1748894400000 1 1) =
     Some \<lparr>timestamp = 1748894400000, datetime = ''2025-06-02 16:00:00 EDT'',
           open = 1, high = 1, low = 1, close = 1, volume = 1\<rparr>"
    by code_simp
  have b: "time_ms (astimezone EDT 1748894400000) = hms 16 0 0" by code_simp
  have c: "aggregate_market_data ''1m'' [ohlcv 1748894400000 1748880000 1 1 1 1 1] = Some []"
    by code_simp
  from a b c show ?thesis by blast
qed

section \<open>Properties of cleaning\<close>

lemma ddf_subset: "set (drop_duplicates_from seen df) \<subseteq> set df"
  by (induction df arbitrary: seen) auto

lemma ddf_timestamps:
  "set (map timestamp (drop_duplicates_from seen df)) = set (map timestamp df) - set seen"
  by (induction df arbitrary: seen) auto

lemma ddf_distinct: "distinct (map timestamp (drop_duplicates_from seen df))"
  by (induction df arbitrary: seen) (auto simp: ddf_timestamps [simplified])

lemma ddf_sorted:
  "sorted (map timestamp df) \<Longrightarrow> sorted (map timestamp (drop_duplicates_from seen df))"
proof (induction df arbitrary: seen)
  case Nil
  then show ?case by simp
next
  case (Cons r rs)
  have "\<forall>x \<in> set (drop_duplicates_from (timestamp r # seen) rs). timestamp r \<le> timestamp x"
    using Cons.prems ddf_subset [of "timestamp r # seen" rs] by auto
  with Cons show ?case by auto
qed

lemma ddf_first:
  "r \<in> set (drop_duplicates_from seen df) \<Longrightarrow>
     find (\<lambda>x. timestamp x = timestamp r) df = Some r"
proof (induction df arbitrary: seen)
  case Nil
  then show ?case by simp
next
  case (Cons a rs)
  show ?case
  proof (cases "timestamp a \<in> set seen")
    case True
    with Cons.prems have r: "r \<in> set (drop_duplicates_from seen rs)" by simp
    then have "timestamp r \<in> set (map timestamp (drop_duplicates_from seen rs))" by simp
    then have "timestamp r \<notin> set seen" unfolding ddf_timestamps by simp
    with True have "timestamp a \<noteq> timestamp r" by auto
    with Cons.IH [OF r] show ?thesis by simp
  next
    case False
    with Cons.prems have "r = a \<or> r \<in> set (drop_duplicates_from (timestamp a # seen) rs)"
      by simp
    then show ?thesis
    proof
      assume "r = a"
      then show ?thesis by simp
    next
      assume r: "r \<in> set (drop_duplicates_from (timestamp a # seen) rs)"
      then have "timestamp r \<in> set (map timestamp (drop_duplicates_from (timestamp a # seen) rs))"
        by simp
      then have "timestamp r \<noteq> timestamp a" unfolding ddf_timestamps by simp
      with Cons.IH [OF r] show ?thesis by simp
    qed
  qed
qed

lemma ddf_id:
  "distinct (map timestamp df) \<Longrightarrow> set (map timestamp df) \<inter> set seen = {} \<Longrightarrow>
     drop_duplicates_from seen df = df"
  by (induction df arbitrary: seen) auto

lemma sorts_Nil: "sorts_by_timestamp srt \<Longrightarrow> srt [] = []"
  unfolding sorts_by_timestamp_def by (metis mset_zero_iff)

lemma sorts_set: "sorts_by_timestamp srt \<Longrightarrow> set (srt df) = set df"
  unfolding sorts_by_timestamp_def by (metis mset_eq_setD)

lemma sorts_sorted: "sorts_by_timestamp srt \<Longrightarrow> sorted (map timestamp (srt df))"
  unfolding sorts_by_timestamp_def by blast

lemma sorts_fixes_strictly_sorted:
  assumes "sorts_by_timestamp srt" and "sorted_wrt (<) (map timestamp df)"
  shows "srt df = df"
proof -
  from assms(2) have s: "sorted (map timestamp df)" and d: "distinct (map timestamp df)"
    by (simp_all add: strict_sorted_iff)
  from assms(1) have m: "mset (srt df) = mset df"
    unfolding sorts_by_timestamp_def by blast
  then have "mset (map timestamp (srt df)) = mset (map timestamp df)"
    by (metis mset_map)
  with sorts_sorted [OF assms(1)] s have e: "map timestamp (srt df) = map timestamp df"
    by (metis properties_for_sort)
  from d have "inj_on timestamp (set df)" by (simp add: distinct_map)
  with sorts_set [OF assms(1)] have "inj_on timestamp (set (srt df) \<union> set df)" by simp
  with e show ?thesis by (rule map_inj_on)
qed

lemma stable_sort_values_sorts: "sorts_by_timestamp stable_sort_values"
  by (simp add: sorts_by_timestamp_def stable_sort_values_def)

lemma map_filter_retract:
  "\<forall>r \<in> set rs. f (g r) = Some r \<Longrightarrow> List.map_filter f (map g rs) = rs"
  by (induction rs) (auto simp: List.map_filter_simps)

lemma set_map_filter: "set (List.map_filter f xs) = {y. \<exists>x \<in> set xs. f x = Some y}"
  by (induction xs) (auto simp: List.map_filter_simps split: option.splits)

lemma process_single_candle_timestamp:
  "process_single_candle self c = Some r \<Longrightarrow> timestamp r = get_or (c_datetime c) 0"
  unfolding process_single_candle_if by (cases "rejects self (get_or (c_datetime c) 0)") auto

lemma get_or_Some: "get_or (Some x) d = x"
  by (simp add: get_or_def)

lemma process_single_candle_as_candle:
  assumes "process_single_candle self c = Some r"
  shows "process_single_candle self (as_candle r) = Some r"
proof -
  let ?t = "get_or (c_datetime c) 0"
  from assms have nr: "\<not> rejects self ?t"
    unfolding process_single_candle_if by (cases "rejects self ?t") auto
  with assms have r: "r = \<lparr>timestamp = ?t,
                 datetime = strftime (astimezone (timezone self) ?t),
                 open = get_or (c_open c) 0, high = get_or (c_high c) 0,
                 low = get_or (c_low c) 0, close = get_or (c_close c) 0,
                 volume = get_or (c_volume c) 0\<rparr>"
    unfolding process_single_candle_if by simp
  have t: "get_or (c_datetime (as_candle r)) 0 = ?t"
    by (simp add: r as_candle_def get_or_Some)
  show ?thesis
    unfolding process_single_candle_if t using nr
    by (simp add: r as_candle_def get_or_Some)
qed

lemma process_candles_eq:
  assumes "sorts_by_timestamp sort_values"
  shows "process_candles sort_values self candles =
     drop_duplicates (sort_values (List.map_filter (process_single_candle self) candles))"
  using sorts_Nil [OF assms]
  by (simp add: process_candles_def Let_def drop_duplicates_def)

text \<open>
  Claim C6. Whatever sort \<open>sort_values\<close> stands for, cleaning returns the surviving
  candles sorted ascending by epoch timestamp and deduplicated on it, keeping of each
  timestamp the first row in the sorted order: the timestamps of the output are strictly
  increasing (hence unique), every output row is a survivor, every surviving timestamp is
  kept, and when no candle survives (the input is empty or everything is filtered out)
  the result is the empty frame.
\<close>

theorem process_candles_sorted_unique:
  assumes "sorts_by_timestamp sort_values"
  shows "process_candles sort_values self candles =
           drop_duplicates (sort_values (List.map_filter (process_single_candle self) candles)) \<and>
         sorted_wrt (<) (map timestamp (process_candles sort_values self candles)) \<and>
         set (process_candles sort_values self candles)
           \<subseteq> set (List.map_filter (process_single_candle self) candles) \<and>
         set (map timestamp (process_candles sort_values self candles))
           = set (map timestamp (List.map_filter (process_single_candle self) candles)) \<and>
         (\<forall>r \<in> set (process_candles sort_values self candles).
            find (\<lambda>x. timestamp x = timestamp r)
              (sort_values (List.map_filter (process_single_candle self) candles)) = Some r) \<and>
         (List.map_filter (process_single_candle self) candles = [] \<longrightarrow>
            process_candles sort_values self candles = [])"
proof -
  let ?s = "List.map_filter (process_single_candle self) candles"
  let ?out = "process_candles sort_values self candles"
  have eq: "?out = drop_duplicates (sort_values ?s)"
    by (rule process_candles_eq [OF assms])
  have "sorted (map timestamp ?out)"
    unfolding eq drop_duplicates_def by (rule ddf_sorted) (rule sorts_sorted [OF assms])
  moreover have "distinct (map timestamp ?out)"
    unfolding eq drop_duplicates_def by (rule ddf_distinct)
  ultimately have strict: "sorted_wrt (<) (map timestamp ?out)"
    by (simp add: strict_sorted_iff)
  have sub: "set ?out \<subseteq> set ?s"
    unfolding eq drop_duplicates_def using ddf_subset [of "[]" "sort_values ?s"]
    by (simp add: sorts_set [OF assms])
  have ts: "set (map timestamp ?out) = set (map timestamp ?s)"
    unfolding eq drop_duplicates_def ddf_timestamps by (simp add: sorts_set [OF assms])
  have first: "\<forall>r \<in> set ?out. find (\<lambda>x. timestamp x = timestamp r) (sort_values ?s) = Some r"
    unfolding eq drop_duplicates_def by (blast intro: ddf_first)
  have empty: "?s = [] \<longrightarrow> ?out = []"
    by (simp add: process_candles_def)
  from eq strict sub ts first empty show ?thesis by blast
qed

text \<open>
  Claim C9. Cleaning is idempotent: the rows of a cleaned frame, read again as provider
  records (\<open>as_candle\<close>), clean to the same frame. They all pass the session filter
  again and produce the same rows, the sort leaves a strictly increasing frame as it is,
  and there is no duplicate left to drop.
\<close>

theorem process_candles_idempotent:
  assumes "sorts_by_timestamp sort_values"
  shows "process_candles sort_values self (map as_candle (process_candles sort_values self candles))
           = process_candles sort_values self candles"
proof -
  let ?s = "List.map_filter (process_single_candle self) candles"
  let ?out = "process_candles sort_values self candles"
  have eq: "?out = drop_duplicates (sort_values ?s)"
    by (rule process_candles_eq [OF assms])
  have "sorted (map timestamp ?out)"
    unfolding eq drop_duplicates_def by (rule ddf_sorted) (rule sorts_sorted [OF assms])
  moreover have dist: "distinct (map timestamp ?out)"
    unfolding eq drop_duplicates_def by (rule ddf_distinct)
  ultimately have strict: "sorted_wrt (<) (map timestamp ?out)"
    by (simp add: strict_sorted_iff)
  have sub: "set ?out \<subseteq> set ?s"
    unfolding eq drop_duplicates_def using ddf_subset [of "[]" "sort_values ?s"]
    by (simp add: sorts_set [OF assms])
  have "\<forall>r \<in> set ?out. process_single_candle self (as_candle r) = Some r"
  proof
    fix r assume "r \<in> set ?out"
    with sub have "r \<in> set ?s" by blast
    then obtain c where "process_single_candle self c = Some r"
      by (auto simp: set_map_filter)
    then show "process_single_candle self (as_candle r) = Some r"
      by (rule process_single_candle_as_candle)
  qed
  then have again: "List.map_filter (process_single_candle self) (map as_candle ?out) = ?out"
    by (rule map_filter_retract)
  have "process_candles sort_values self (map as_candle ?out) = drop_duplicates (sort_values ?out)"
    unfolding process_candles_eq [OF assms, of self "map as_candle ?out"] again ..
  also have "sort_values ?out = ?out"
    by (rule sorts_fixes_strictly_sorted [OF assms strict])
  also have "drop_duplicates ?out = ?out"
    unfolding drop_duplicates_def using dist by (intro ddf_id) simp_all
  finally show ?thesis .
qed

theorem process_candles_sorted_unique_witness:
  "process_candles stable_sort_values (MarketDataProcessor_init EDT)
     [candle_at 1748872800000 5 10, candle_at 1748871000000 1 10,
      candle_at 1748865600000 3 10, candle_at 1748872800000 7 10] =
     [\<lparr>timestamp = 1748871000000, datetime = ''2025-06-02 09:30:00 EDT'',
       open = 1, high = 1, low = 1, close = 1, volume = 10\<rparr>,
      \<lparr>timestamp = 1748872800000, datetime = ''2025-06-02 10:00:00 EDT'',
       open = 5, high = 5, low = 5, close = 5, volume = 10\<rparr>] \<and>
   process_candles stable_sort_values (MarketDataProcessor_init EDT)
     [candle_at 1748865600000 3 10] = [] \<and>
   process_candles stable_sort_values (MarketDataProcessor_init EDT) [] = []"
proof -
  note t = process_candles_sorted_unique [OF stable_sort_values_sorts,
      of "MarketDataProcessor_init EDT"]
  have a: "process_candles stable_sort_values (MarketDataProcessor_init EDT)
     [candle_at 1748872800000 5 10, candle_at 1748871000000 1 10,
      candle_at 1748865600000 3 10, candle_at 1748872800000 7 10] =
     [\<lparr>timestamp = 1748871000000, datetime = ''2025-06-02 09:30:00 EDT'',
       open = 1, high = 1, low = 1, close = 1, volume = 10\<rparr>,
      \<lparr>timestamp = 1748872800000, datetime = ''2025-06-02 10:00:00 EDT'',
       open = 5, high = 5, low = 5, close = 5, volume = 10\<rparr>]"
    unfolding t [THEN conjunct1] by code_simp
  have s: "List.map_filter (process_single_candle (MarketDataProcessor_init EDT))
      [candle_at 1748865600000 3 10] = []"
    by code_simp
  have b: "process_candles stable_sort_values (MarketDataProcessor_init EDT)
     [candle_at 1748865600000 3 10] = []"
    using t [of "[candle_at 1748865600000 3 10]"] s by blast
  have c: "process_candles stable_sort_values (MarketDataProcessor_init EDT) [] = []"
    using t [of "[]"] by (auto simp: List.map_filter_simps)
  from a b c show ?thesis by blast
qed

theorem process_candles_idempotent_witness:
  "process_candles stable_sort_values (MarketDataProcessor_init EDT)
     (map as_candle (process_candles stable_sort_values (MarketDataProcessor_init EDT)
        [candle_at 1748872800000 5 10, candle_at 1748871000000 1 10,
         candle_at 1748865600000 3 10, candle_at 1748872800000 7 10])) =
   process_candles stable_sort_values (MarketDataProcessor_init EDT)
     [candle_at 1748872800000 5 10, candle_at 1748871000000 1 10,
      candle_at 1748865600000 3 10, candle_at 1748872800000 7 10] \<and>
   length (process_candles stable_sort_values (MarketDataProcessor_init EDT)
     [candle_at 1748872800000 5 10, candle_at 1748871000000 1 10,
      candle_at 1748865600000 3 10, candle_at 1748872800000 7 10]) = 2"
proof -
  have "length (process_candles stable_sort_values (MarketDataProcessor_init EDT)
     [candle_at 1748872800000 5 10, candle_at 1748871000000 1 10,
      candle_at 1748865600000 3 10, candle_at 1748872800000 7 10]) = 2"
    by code_simp
  with process_candles_idempotent [OF stable_sort_values_sorts,
      of "MarketDataProcessor_init EDT"]
  show ?thesis by blast
qed

section \<open>Properties of the validator\<close>

lemma length_filter_key: "length (filter (\<lambda>x. f x = k) xs) = count_list (map f xs) k"
  by (induction xs) simp_all

lemma distinct_iff_count_le_1: "distinct xs \<longleftrightarrow> (\<forall>k \<in> set xs. count_list xs k \<le> 1)"
proof (induction xs)
  case Nil
  show ?case by simp
next
  case (Cons a xs)
  show ?case
  proof
    assume d: "distinct (a # xs)"
    then have a: "a \<notin> set xs" and "distinct xs" by simp_all
    with Cons.IH have ih: "\<forall>k \<in> set xs. count_list xs k \<le> 1" by blast
    show "\<forall>k \<in> set (a # xs). count_list (a # xs) k \<le> 1"
    proof
      fix k assume "k \<in> set (a # xs)"
      then consider "k = a" | "k \<in> set xs" "k \<noteq> a" by auto
      then show "count_list (a # xs) k \<le> 1"
      proof cases
        case 1
        with a show ?thesis by simp
      next
        case 2
        with ih show ?thesis by simp
      qed
    qed
  next
    assume r: "\<forall>k \<in> set (a # xs). count_list (a # xs) k \<le> 1"
    then have "count_list (a # xs) a \<le> 1" by simp
    then have "count_list xs a = 0" by simp
    then have a: "a \<notin> set xs" by (simp add: count_list_0_iff)
    have "\<forall>k \<in> set xs. count_list xs k \<le> 1"
    proof
      fix k assume k: "k \<in> set xs"
      with a have "k \<noteq> a" by blast
      moreover from r k have "count_list (a # xs) k \<le> 1" by simp
      ultimately show "count_list xs k \<le> 1" by simp
    qed
    with Cons.IH have "distinct xs" by blast
    with a show "distinct (a # xs)" by simp
  qed
qed

lemma duplicated_Nil_iff: "duplicated column df = [] \<longleftrightarrow> distinct (map column df)"
proof -
  have "duplicated column df = [] \<longleftrightarrow> (\<forall>r \<in> set df. count_list (map column df) (column r) \<le> 1)"
    by (auto simp: duplicated_def filter_empty_conv length_filter_key not_less)
  also have "\<dots> \<longleftrightarrow> (\<forall>k \<in> set (map column df). count_list (map column df) k \<le> 1)"
    by auto
  also have "\<dots> \<longleftrightarrow> distinct (map column df)"
    by (rule distinct_iff_count_le_1 [symmetric])
  finally show ?thesis .
qed

lemma is_monotonic_increasing_iff:
  "is_monotonic_increasing xs \<longleftrightarrow> None \<notin> set xs \<and> sorted (map the xs)"
proof (induction xs rule: is_monotonic_increasing.induct)
  case 1
  then show ?case by simp
next
  case (2 x)
  then show ?case by (cases x) auto
next
  case (3 x y zs)
  then show ?case by (cases x; cases y) auto
qed

lemma fst_check_duplicate_timestamps:
  "fst (check_duplicate_timestamps df) = distinct (map timestamp df)"
  by (simp add: check_duplicate_timestamps_def Let_def duplicated_Nil_iff)

lemma fst_check_duplicate_datetime:
  "fst (check_duplicate_datetime df) = distinct (map datetime df)"
  by (simp add: check_duplicate_datetime_def Let_def duplicated_Nil_iff)

lemma fst_check_null_values: "fst (check_null_values df)"
  by (simp add: check_null_values_def Let_def)

lemma fst_check_volume_values: "fst (check_volume_values df)"
  by (simp add: check_volume_values_def Let_def)

lemma fst_check_negative_prices:
  "fst (check_negative_prices df) =
     (\<forall>r \<in> set df. \<not> is_negative (open r) \<and> \<not> is_negative (high r) \<and>
                    \<not> is_negative (low r) \<and> \<not> is_negative (close r))"
  by (simp add: check_negative_prices_def Let_def filter_empty_conv)

lemma fst_check_timestamp_ordering:
  "fst (check_timestamp_ordering df) =
     ((\<forall>r \<in> set df. timestamp r \<noteq> None) \<and> sorted (map (the \<circ> timestamp) df))"
proof -
  have "None \<notin> set (map timestamp df) \<longleftrightarrow> (\<forall>r \<in> set df. timestamp r \<noteq> None)"
    by (induction df) auto
  then show ?thesis
    by (simp add: check_timestamp_ordering_def is_monotonic_increasing_iff del: set_map)
qed

lemma fst_run_validations:
  "fst (run_validations vs df logged) = (\<forall>v \<in> set vs. fst (v df))"
  by (induction vs arbitrary: logged) auto

lemma run_validations_log:
  "run_validations vs df logged =
     (let passing = takeWhile (\<lambda>v. fst (v df)) vs
      in if length passing = length vs
         then (True, logged @ concat (map (\<lambda>v. snd (v df)) vs) @ [(INFO, AllValidationsPassed)])
         else (False, logged @ concat (map (\<lambda>v. snd (v df)) (take (length passing + 1) vs))))"
proof (induction vs arbitrary: logged)
  case Nil
  then show ?case by simp
next
  case (Cons v vs)
  show ?case
  proof (cases "fst (v df)")
    case True
    then show ?thesis using Cons.IH [of "logged @ snd (v df)"] by (simp add: Let_def)
  next
    case False
    then show ?thesis by simp
  qed
qed

text \<open>
  Claim C5, as the code has it. Validation reports passed = true exactly when the frame
  is not empty and none of the four hard checks fires, as the library evaluates them: no
  value of the timestamp column and no value of the datetime column occurs twice, where
  a null cell is a value like any other (two null cells in one of these columns are a
  duplicate); no open, high, low or close is negative (a null price is not); every
  timestamp is present and the timestamps are non-decreasing in the order given. The null
  check and the volume check return true on every frame, so by themselves they never make
  the result false: a null price, a null volume, one null datetime and a volume that is
  not positive leave the result as it is. An absent or empty frame is reported as a
  failure by the single record "cannot validate", before any check runs.
\<close>

theorem validate_dataframe_passed_iff:
  "validate_dataframe None = (False, [(ERROR, CannotValidate)]) \<and>
   validate_dataframe (Some []) = (False, [(ERROR, CannotValidate)]) \<and>
   fst (validate_dataframe (Some df)) =
     (df \<noteq> [] \<and> distinct (map timestamp df) \<and> distinct (map datetime df) \<and>
      (\<forall>r \<in> set df. \<not> is_negative (open r) \<and> \<not> is_negative (high r) \<and>
                     \<not> is_negative (low r) \<and> \<not> is_negative (close r)) \<and>
      (\<forall>r \<in> set df. timestamp r \<noteq> None) \<and> sorted (map (the \<circ> timestamp) df)) \<and>
   fst (check_null_values df) \<and> fst (check_volume_values df)"
proof -
  have "fst (validate_dataframe (Some df)) =
     (df \<noteq> [] \<and> fst (check_duplicate_timestamps df) \<and> fst (check_duplicate_datetime df) \<and>
      fst (check_negative_prices df) \<and> fst (check_timestamp_ordering df))"
    by (auto simp: validate_dataframe_def fst_run_validations validations_def
          fst_check_null_values fst_check_volume_values)
  then show ?thesis
    unfolding fst_check_duplicate_timestamps fst_check_duplicate_datetime
      fst_check_negative_prices fst_check_timestamp_ordering
    by (simp add: validate_dataframe_def fst_check_null_values fst_check_volume_values)
qed

text \<open>
  Claim C2, as the code has it. On a non-empty frame the validator runs the six checks in
  their fixed order and stops at the first one that fails: the records logged are those of
  the checks that pass before it and of that first failing check, and no later check is
  run; when every check passes, all six have logged and the result is true.
\<close>

theorem validate_dataframe_stops_at_first_failure:
  "df \<noteq> [] \<Longrightarrow>
   validate_dataframe (Some df) =
     (let passing = takeWhile (\<lambda>validation. fst (validation df)) validations
      in if length passing = length validations
         then (True, [(INFO, RunningValidation)] @
                     concat (map (\<lambda>validation. snd (validation df)) validations) @
                     [(INFO, AllValidationsPassed)])
         else (False, [(INFO, RunningValidation)] @
                      concat (map (\<lambda>validation. snd (validation df))
                                (take (length passing + 1) validations))))"
  by (simp add: validate_dataframe_def run_validations_log)

theorem validate_dataframe_passed_iff_witness:
  "fst (validate_dataframe (Some [cells 1 ''a'' 1 0, (cells 2 ''b'' 1 1)\<lparr>open := None\<rparr>])) \<and>
   \<not> fst (validate_dataframe (Some [cells 2 ''a'' 1 1, cells 1 ''b'' 1 1])) \<and>
   \<not> fst (validate_dataframe (Some [cells 1 ''a'' 1 1, cells 2 ''b'' (- 1) 1])) \<and>
   \<not> fst (validate_dataframe (Some [cells 1 ''a'' 1 1, cells 1 ''b'' 1 1])) \<and>
   \<not> fst (validate_dataframe (Some [cells 1 ''a'' 1 1, cells 2 ''a'' 1 1])) \<and>
   \<not> fst (validate_dataframe (Some [])) \<and> \<not> fst (validate_dataframe None) \<and>
   fst (validate_dataframe
     (Some [(cells 1 ''a'' 1 1)\<lparr>datetime := None, volume := None\<rparr>, cells 2 ''b'' 1 1])) \<and>
   \<not> fst (validate_dataframe (Some [(cells 1 ''a'' 1 1)\<lparr>timestamp := None\<rparr>])) \<and>
   \<not> fst (validate_dataframe
     (Some [(cells 1 ''a'' 1 1)\<lparr>datetime := None\<rparr>, (cells 2 ''b'' 1 1)\<lparr>datetime := None\<rparr>]))"
proof -
  have g: "fst (validate_dataframe
     (Some [(cells 1 ''a'' 1 1)\<lparr>datetime := None, volume := None\<rparr>, cells 2 ''b'' 1 1]))"
    using validate_dataframe_passed_iff
      [of "[(cells 1 ''a'' 1 1)\<lparr>datetime := None, volume := None\<rparr>, cells 2 ''b'' 1 1]"]
    by (simp add: cells_def is_negative_def)
  have h: "\<not> fst (validate_dataframe (Some [(cells 1 ''a'' 1 1)\<lparr>timestamp := None\<rparr>]))"
    using validate_dataframe_passed_iff [of "[(cells 1 ''a'' 1 1)\<lparr>timestamp := None\<rparr>]"]
    by (simp add: cells_def is_negative_def)
  have i: "\<not> fst (validate_dataframe
     (Some [(cells 1 ''a'' 1 1)\<lparr>datetime := None\<rparr>, (cells 2 ''b'' 1 1)\<lparr>datetime := None\<rparr>]))"
    using validate_dataframe_passed_iff
      [of "[(cells 1 ''a'' 1 1)\<lparr>datetime := None\<rparr>, (cells 2 ''b'' 1 1)\<lparr>datetime := None\<rparr>]"]
    by (simp add: cells_def is_negative_def)
  have a: "fst (validate_dataframe (Some [cells 1 ''a'' 1 0, (cells 2 ''b'' 1 1)\<lparr>open := None\<rparr>]))"
    using validate_dataframe_passed_iff [of "[cells 1 ''a'' 1 0, (cells 2 ''b'' 1 1)\<lparr>open := None\<rparr>]"]
    by (simp add: cells_def is_negative_def)
  have b: "\<not> fst (validate_dataframe (Some [cells 2 ''a'' 1 1, cells 1 ''b'' 1 1]))"
    using validate_dataframe_passed_iff [of "[cells 2 ''a'' 1 1, cells 1 ''b'' 1 1]"]
    by (simp add: cells_def is_negative_def)
  have c: "\<not> fst (validate_dataframe (Some [cells 1 ''a'' 1 1, cells 2 ''b'' (- 1) 1]))"
    using validate_dataframe_passed_iff [of "[cells 1 ''a'' 1 1, cells 2 ''b'' (- 1) 1]"]
    by (simp add: cells_def is_negative_def)
  have d: "\<not> fst (validate_dataframe (Some [cells 1 ''a'' 1 1, cells 1 ''b'' 1 1]))"
    using validate_dataframe_passed_iff [of "[cells 1 ''a'' 1 1, cells 1 ''b'' 1 1]"]
    by (simp add: cells_def is_negative_def)
  have e: "\<not> fst (validate_dataframe (Some [cells 1 ''a'' 1 1, cells 2 ''a'' 1 1]))"
    using validate_dataframe_passed_iff [of "[cells 1 ''a'' 1 1, cells 2 ''a'' 1 1]"]
    by (simp add: cells_def is_negative_def)
  have f: "\<not> fst (validate_dataframe (Some [])) \<and> \<not> fst (validate_dataframe None)"
    using validate_dataframe_passed_iff [of "[]"] by simp
  from a b c d e f g h i show ?thesis by blast
qed

text \<open>
  The claim as stated fails on null cells. On a one-row frame whose timestamp is null,
  and on a two-row frame whose datetimes are both null, every condition the claim lists
  holds (nothing that is present repeats, no price is negative, the timestamps present
  are in order), and validation reports passed = false.
\<close>

theorem null_cells_counterexample:
  "spec_passed [(cells 1 ''a'' 1 1)\<lparr>timestamp := None\<rparr>] \<and>
   \<not> fst (validate_dataframe (Some [(cells 1 ''a'' 1 1)\<lparr>timestamp := None\<rparr>])) \<and>
   spec_passed [(cells 1 ''a'' 1 1)\<lparr>datetime := None\<rparr>, (cells 2 ''b'' 1 1)\<lparr>datetime := None\<rparr>] \<and>
   \<not> fst (validate_dataframe
     (Some [(cells 1 ''a'' 1 1)\<lparr>datetime := None\<rparr>, (cells 2 ''b'' 1 1)\<lparr>datetime := None\<rparr>]))"
proof -
  have a: "spec_passed [(cells 1 ''a'' 1 1)\<lparr>timestamp := None\<rparr>]" by code_simp
  have b: "\<not> fst (validate_dataframe (Some [(cells 1 ''a'' 1 1)\<lparr>timestamp := None\<rparr>]))"
    by code_simp
  have c: "spec_passed
      [(cells 1 ''a'' 1 1)\<lparr>datetime := None\<rparr>, (cells 2 ''b'' 1 1)\<lparr>datetime := None\<rparr>]"
    by code_simp
  have d: "\<not> fst (validate_dataframe
     (Some [(cells 1 ''a'' 1 1)\<lparr>datetime := None\<rparr>, (cells 2 ''b'' 1 1)\<lparr>datetime := None\<rparr>]))"
    by code_simp
  from a b c d show ?thesis by blast
qed

theorem validate_dataframe_stops_at_first_failure_witness:
  "validate_dataframe (Some [cells 1 ''a'' 1 1, cells 1 ''b'' (- 1) 1]) =
     (False, [(INFO, RunningValidation), (ERROR, FoundDuplicateTimestamps 2),
              (ERROR, SampleRows [(Some 1, Some ''a''), (Some 1, Some ''b'')])])"
proof -
  have ne: "[cells 1 ''a'' 1 1, cells 1 ''b'' (- 1) 1] \<noteq> []" by simp
  show ?thesis
    unfolding validate_dataframe_stops_at_first_failure [OF ne] by code_simp
qed

text \<open>
  The claim as stated fails: on a frame with a repeated timestamp and a negative price the
  negative-price check fires, and nothing it reports is in the outcome of the validation.
\<close>

theorem accumulate_failures_counterexample:
  "\<not> (\<forall>df. df \<noteq> [] \<longrightarrow>
         (\<forall>validation \<in> set validations.
            \<not> fst (validation df) \<longrightarrow>
            set (snd (validation df)) \<subseteq> set (snd (validate_dataframe (Some df)))))"
proof
  let ?df = "[cells 1 ''a'' 1 1, cells 1 ''b'' (- 1) 1]"
  assume "\<forall>df. df \<noteq> [] \<longrightarrow>
         (\<forall>validation \<in> set validations.
            \<not> fst (validation df) \<longrightarrow>
            set (snd (validation df)) \<subseteq> set (snd (validate_dataframe (Some df))))"
  then have "\<forall>validation \<in> set validations.
            \<not> fst (validation ?df) \<longrightarrow>
            set (snd (validation ?df)) \<subseteq> set (snd (validate_dataframe (Some ?df)))"
    by blast
  moreover have "check_negative_prices \<in> set validations" by (simp add: validations_def)
  moreover have "\<not> fst (check_negative_prices ?df)" by code_simp
  ultimately have "set (snd (check_negative_prices ?df)) \<subseteq> set (snd (validate_dataframe (Some ?df)))"
    by blast
  moreover have "\<not> set (snd (check_negative_prices ?df)) \<subseteq> set (snd (validate_dataframe (Some ?df)))"
    by code_simp
  ultimately show False by blast
qed

section \<open>Properties of the aggregator\<close>

lemma offset_seconds_pos: "offset_seconds rule = Some freq \<Longrightarrow> 0 < freq"
  by (auto simp: offset_seconds_def split: if_splits)

lemma agg_max_eq: "xs \<noteq> [] \<Longrightarrow> agg_max xs = Some (Max (set xs))"
proof (cases xs)
  case Nil
  assume "xs \<noteq> []"
  with Nil show ?thesis by simp
next
  case (Cons a rest)
  then show ?thesis using Max.set_eq_fold [of a rest] by (simp add: agg_max_def)
qed

lemma agg_min_eq: "xs \<noteq> [] \<Longrightarrow> agg_min xs = Some (Min (set xs))"
proof (cases xs)
  case Nil
  assume "xs \<noteq> []"
  with Nil show ?thesis by simp
next
  case (Cons a rest)
  then show ?thesis using Min.set_eq_fold [of a rest] by (simp add: agg_min_def)
qed

lemma agg_first_eq: "xs \<noteq> [] \<Longrightarrow> agg_first (map f xs) = Some (f (hd xs))"
  by (cases xs) (simp_all add: agg_first_def)

lemma agg_last_eq: "xs \<noteq> [] \<Longrightarrow> agg_last (map f xs) = Some (f (last xs))"
  by (simp add: agg_last_def last_map)

lemma to_output_agg:
  "rows \<noteq> [] \<Longrightarrow> to_output (agg (k * freq, rows)) = Some (bucket_bar freq k rows)"
  by (simp add: to_output_def agg_def bucket_bar_def agg_first_eq agg_last_eq agg_max_eq agg_min_eq)

lemma dropna_agg:
  "dropna (map agg bins) = map agg (filter (\<lambda>bin. snd bin \<noteq> []) bins)"
proof -
  have "\<And>bin. (open (agg bin) \<noteq> None \<and> high (agg bin) \<noteq> None \<and> low (agg bin) \<noteq> None \<and>
      close (agg bin) \<noteq> None) = (snd bin \<noteq> [])"
    by (auto simp: agg_def agg_first_def agg_last_def agg_max_def agg_min_def split: list.splits)
  then show ?thesis
    by (simp add: dropna_def filter_map comp_def)
qed

lemma written_bins:
  "List.map_filter to_output (dropna (map agg (map (\<lambda>k. (k * freq, rows k)) ks))) =
     map (\<lambda>k. bucket_bar freq k (rows k)) (filter (\<lambda>k. rows k \<noteq> []) ks)"
  unfolding dropna_agg
  by (induction ks) (simp_all add: List.map_filter_simps to_output_agg)

lemma sort_key_hd_le:
  assumes "r \<in> set df"
  shows "datetime (hd (sort_key datetime df)) \<le> datetime r"
proof -
  let ?s = "sort_key datetime df"
  have "?s \<noteq> []"
  proof
    assume e: "?s = []"
    have "length ?s = length df" by (rule length_sort)
    then have "length df = 0" unfolding e by simp
    with assms show False by simp
  qed
  then obtain h t where ht: "?s = h # t" by (cases ?s) auto
  have "sorted (map datetime ?s)" by simp
  then have le: "\<forall>x \<in> set t. datetime h \<le> datetime x" unfolding ht by simp
  have "set (h # t) = set df" unfolding ht [symmetric] by simp
  with assms have "r = h \<or> r \<in> set t" by auto
  with le show ?thesis unfolding ht by auto
qed

lemma sort_key_le_last:
  assumes "r \<in> set df"
  shows "datetime r \<le> datetime (last (sort_key datetime df))"
proof -
  let ?s = "sort_key datetime df"
  have "?s \<noteq> []"
  proof
    assume e: "?s = []"
    have "length ?s = length df" by (rule length_sort)
    then have "length df = 0" unfolding e by simp
    with assms show False by simp
  qed
  then obtain b l where bl: "?s = b @ [l]" by (cases ?s rule: rev_cases) auto
  have "sorted (map datetime ?s)" by simp
  then have le: "\<forall>x \<in> set b. datetime x \<le> datetime l"
    unfolding bl by (simp add: sorted_append)
  have "set (b @ [l]) = set df" unfolding bl [symmetric] by simp
  with assms have "r = l \<or> r \<in> set b" by auto
  with le show ?thesis unfolding bl by auto
qed

lemma nonempty_bins:
  assumes "0 < freq" and "df \<noteq> []"
  shows "filter (\<lambda>k. bucket_rows freq k (sort_key datetime df) \<noteq> [])
           [datetime (hd (sort_key datetime df)) div freq..
            datetime (last (sort_key datetime df)) div freq] =
         sorted_list_of_set (bucket_of freq ` set (sort_key datetime df))"
    (is "filter ?P [?lo..?hi] = _")
proof -
  have "set (filter ?P [?lo..?hi]) = bucket_of freq ` set df"
  proof (intro equalityI subsetI)
    fix k assume "k \<in> set (filter ?P [?lo..?hi])"
    then have "bucket_rows freq k (sort_key datetime df) \<noteq> []" by simp
    then obtain r where "r \<in> set df" "bucket_of freq r = k"
      by (auto simp: bucket_rows_def filter_empty_conv)
    then show "k \<in> bucket_of freq ` set df" by blast
  next
    fix k assume "k \<in> bucket_of freq ` set df"
    then obtain r where r: "r \<in> set df" "bucket_of freq r = k" by blast
    from r(1) have "?lo \<le> datetime r div freq"
      by (intro zdiv_mono1 sort_key_hd_le assms(1))
    moreover from r(1) have "datetime r div freq \<le> ?hi"
      by (intro zdiv_mono1 sort_key_le_last assms(1))
    moreover from r have "bucket_rows freq k (sort_key datetime df) \<noteq> []"
      by (auto simp: bucket_rows_def filter_empty_conv)
    ultimately show "k \<in> set (filter ?P [?lo..?hi])"
      using r(2) by (simp add: bucket_of_def)
  qed
  moreover have "sorted (filter ?P [?lo..?hi])" by (simp add: sorted_wrt_filter)
  moreover have "distinct (filter ?P [?lo..?hi])" by simp
  ultimately have "sorted_list_of_set (bucket_of freq ` set df) = filter ?P [?lo..?hi]"
    using sorted_list_of_set.idem_if_sorted_distinct [of "filter ?P [?lo..?hi]"] by simp
  then show ?thesis by simp
qed

lemma resample_written:
  assumes "0 < freq"
  shows "List.map_filter to_output (dropna (map agg (resample freq df))) =
           spec_aggregate freq (sort_key datetime df)"
proof (cases "df = []")
  case True
  then show ?thesis
    by (simp add: resample_def spec_aggregate_def dropna_def List.map_filter_simps)
next
  case False
  let ?s = "sort_key datetime df"
  have "resample freq df =
      map (\<lambda>k. (k * freq, bucket_rows freq k ?s))
        [datetime (hd ?s) div freq..datetime (last ?s) div freq]"
    using False by (simp add: resample_def Let_def bucket_rows_def bucket_of_def)
  then show ?thesis
    unfolding spec_aggregate_def nonempty_bins [OF assms False, symmetric]
    by (simp only: written_bins)
qed

lemma aggregate_market_data_eq:
  assumes "offset_seconds (to_timeframe_pandas to_timeframe) = Some freq"
  shows "aggregate_market_data to_timeframe df =
           Some (spec_aggregate freq (sort_key datetime (filter within_market_hours df)))"
  using assms resample_written [OF offset_seconds_pos [OF assms]]
  by (simp add: aggregate_market_data_def)

lemma sum_list_indicator:
  "distinct ks \<Longrightarrow> a \<in> set ks \<Longrightarrow> sum_list (map (\<lambda>k. if a = k then c else (0::int)) ks) = c"
proof (induction ks)
  case Nil
  then show ?case by simp
next
  case (Cons k ks)
  show ?case
  proof (cases "a = k")
    case True
    with Cons.prems have "a \<notin> set ks" by simp
    then have "sum_list (map (\<lambda>k. if a = k then c else 0) ks) = 0"
      by (induction ks) auto
    with True show ?thesis by simp
  next
    case False
    with Cons show ?thesis by simp
  qed
qed

lemma sum_list_partition:
  "distinct ks \<Longrightarrow> \<forall>r \<in> set xs. key r \<in> set ks \<Longrightarrow>
     sum_list (map (\<lambda>k. sum_list (map v (filter (\<lambda>r. key r = k) xs))) ks) =
     (sum_list (map v xs) :: int)"
proof (induction xs)
  case Nil
  then show ?case by (induction ks) auto
next
  case (Cons x xs)
  have "sum_list (map (\<lambda>k. sum_list (map v (filter (\<lambda>r. key r = k) (x # xs)))) ks) =
        sum_list (map (\<lambda>k. (if key x = k then v x else 0) +
                             sum_list (map v (filter (\<lambda>r. key r = k) xs))) ks)"
    by (rule arg_cong [where f = sum_list], rule map_cong) auto
  also have "\<dots> = sum_list (map (\<lambda>k. if key x = k then v x else 0) ks) +
        sum_list (map (\<lambda>k. sum_list (map v (filter (\<lambda>r. key r = k) xs))) ks)"
    by (rule sum_list_addf)
  also have "\<dots> = v x + sum_list (map v xs)"
    using Cons by (simp add: sum_list_indicator)
  finally show ?case by simp
qed

lemma spec_aggregate_volume:
  "sum_list (map volume (spec_aggregate freq df)) = sum_list (map volume df)"
proof -
  have "sum_list (map volume (spec_aggregate freq df)) =
        sum_list (map (\<lambda>k. sum_list (map volume (filter (\<lambda>r. bucket_of freq r = k) df)))
                   (sorted_list_of_set (bucket_of freq ` set df)))"
    by (simp add: spec_aggregate_def bucket_bar_def bucket_rows_def comp_def)
  also have "\<dots> = sum_list (map volume df)"
    by (rule sum_list_partition) simp_all
  finally show ?thesis .
qed

lemma spec_aggregate_labels:
  "map datetime (spec_aggregate freq df) =
     map (\<lambda>k. k * freq) (sorted_list_of_set (bucket_of freq ` set df))"
  by (simp add: spec_aggregate_def bucket_bar_def comp_def)

lemma spec_aggregate_strict:
  assumes "0 < freq"
  shows "sorted_wrt (<) (map datetime (spec_aggregate freq df))"
proof -
  have "sorted_wrt (<) (sorted_list_of_set (bucket_of freq ` set df))"
    by simp
  then have "sorted_wrt (\<lambda>a b. a * freq < b * freq) (sorted_list_of_set (bucket_of freq ` set df))"
    by (rule sorted_wrt_mono_rel [rotated]) (use assms in simp)
  then show ?thesis
    unfolding spec_aggregate_labels by (simp add: sorted_wrt_map)
qed

text \<open>
  Claim C4, as the code has it. For a recognised target timeframe, aggregation keeps the
  bars within the market hours 09:30:00 \<open>\<le>\<close> t \<open><\<close> 16:00:00 and partitions them, in
  time order, into the buckets that start at the multiples of the bucket length
  (contiguous, non-overlapping, aligned to the wall clock). The output is exactly one bar
  for each bucket that holds a kept bar, in ascending order of the buckets and with
  strictly increasing labels: its timestamp and open are those of the first bar of the
  bucket, its high the maximum high, its low the minimum low, its close the close of the
  last bar, its volume the sum of the volumes. A bucket without a kept bar has no output
  bar, and a partially filled bucket has one, built from the bars it holds.
\<close>

theorem aggregate_market_data_buckets:
  assumes "offset_seconds (to_timeframe_pandas to_timeframe) = Some freq"
  shows "aggregate_market_data to_timeframe df =
           Some (spec_aggregate freq (sort_key datetime (filter within_market_hours df))) \<and>
         sorted_wrt (<) (map datetime
           (spec_aggregate freq (sort_key datetime (filter within_market_hours df)))) \<and>
         set (map datetime (spec_aggregate freq (sort_key datetime (filter within_market_hours df))))
           = (\<lambda>r. bucket_of freq r * freq) ` set (filter within_market_hours df) \<and>
         (\<forall>r \<in> set df. bucket_of freq r * freq \<le> datetime r \<and>
                         datetime r < bucket_of freq r * freq + freq)"
proof -
  have pos: "0 < freq" by (rule offset_seconds_pos [OF assms])
  have a: "aggregate_market_data to_timeframe df =
           Some (spec_aggregate freq (sort_key datetime (filter within_market_hours df)))"
    by (rule aggregate_market_data_eq [OF assms])
  have b: "sorted_wrt (<) (map datetime
           (spec_aggregate freq (sort_key datetime (filter within_market_hours df))))"
    by (rule spec_aggregate_strict [OF pos])
  have c: "set (map datetime (spec_aggregate freq (sort_key datetime (filter within_market_hours df))))
           = (\<lambda>r. bucket_of freq r * freq) ` set (filter within_market_hours df)"
    unfolding spec_aggregate_labels by (simp add: image_image)
  have d: "\<forall>r \<in> set df. bucket_of freq r * freq \<le> datetime r \<and>
                         datetime r < bucket_of freq r * freq + freq"
  proof
    fix r :: indexed_row
    have "datetime r = datetime r div freq * freq + datetime r mod freq" by simp
    moreover from pos have "0 \<le> datetime r mod freq" "datetime r mod freq < freq" by simp_all
    ultimately show "bucket_of freq r * freq \<le> datetime r \<and>
                         datetime r < bucket_of freq r * freq + freq"
      unfolding bucket_of_def by linarith
  qed
  from a b c d show ?thesis by blast
qed

theorem aggregate_market_data_buckets_witness:
  "aggregate_market_data ''3m''
     [ohlcv 1 1748856600 10 12 9 11 100, ohlcv 2 1748856660 11 15 10 14 50,
      ohlcv 3 1748856720 14 14 8 9 25, ohlcv 4 1748856780 9 10 9 10 5,
      ohlcv 6 1748856900 10 11 7 8 7, ohlcv 9 1748857500 1 2 1 2 1] =
   Some [ohlcv 1 1748856600 10 15 8 9 175, ohlcv 4 1748856780 9 11 7 8 12,
         ohlcv 9 1748857500 1 2 1 2 1]"
proof -
  have h: "offset_seconds (to_timeframe_pandas ''3m'') = Some 180" by code_simp
  show ?thesis
    unfolding aggregate_market_data_buckets [OF h, THEN conjunct1] by code_simp
qed

text \<open>
  The claim as stated, over every input bar, fails: a single bar stamped 16:00:00 is a
  non-empty bucket, and the aggregation emits no bar for it.
\<close>

theorem bucket_of_every_bar_counterexample:
  "\<not> (\<forall>df. aggregate_market_data ''3m'' df = Some (spec_aggregate 180 (sort_key datetime df)))"
proof
  assume "\<forall>df. aggregate_market_data ''3m'' df = Some (spec_aggregate 180 (sort_key datetime df))"
  then have "aggregate_market_data ''3m'' [ohlcv 1 1748880000 1 1 1 1 9] =
      Some (spec_aggregate 180 (sort_key datetime [ohlcv 1 1748880000 1 1 1 1 9]))"
    by blast
  moreover have "aggregate_market_data ''3m'' [ohlcv 1 1748880000 1 1 1 1 9] \<noteq>
      Some (spec_aggregate 180 (sort_key datetime [ohlcv 1 1748880000 1 1 1 1 9]))"
    by code_simp
  ultimately show False by blast
qed

text \<open>
  Claim C3, as the code has it. The aggregator applies a session filter of its own: it
  keeps the bars whose time of day t satisfies 09:30:00 \<open>\<le>\<close> t \<open><\<close> 16:00:00 (no
  early-close rule). Every kept bar is assigned to a bucket that has an output bar, every
  output bar is the bucket of a kept bar, the volumes of the output add up to the volumes
  of the kept bars, and the bars outside these hours do not contribute: removing them from
  the input leaves the output unchanged.
\<close>

theorem aggregate_market_data_filters_market_hours:
  assumes "offset_seconds (to_timeframe_pandas to_timeframe) = Some freq"
  shows "\<exists>out. aggregate_market_data to_timeframe df = Some out \<and>
           aggregate_market_data to_timeframe (filter within_market_hours df) = Some out \<and>
           (\<forall>r \<in> set df. within_market_hours r \<longrightarrow>
              (\<exists>bar \<in> set out. datetime bar = bucket_of freq r * freq)) \<and>
           (\<forall>bar \<in> set out. \<exists>r \<in> set df. within_market_hours r \<and>
              datetime bar = bucket_of freq r * freq) \<and>
           sum_list (map volume out) = sum_list (map volume (filter within_market_hours df))"
proof -
  let ?kept = "filter within_market_hours df"
  let ?out = "spec_aggregate freq (sort_key datetime ?kept)"
  have a: "aggregate_market_data to_timeframe df = Some ?out"
    by (rule aggregate_market_data_eq [OF assms])
  have b: "aggregate_market_data to_timeframe ?kept = Some ?out"
    unfolding aggregate_market_data_eq [OF assms] by simp
  have labels: "set (map datetime ?out) = (\<lambda>r. bucket_of freq r * freq) ` set ?kept"
    unfolding spec_aggregate_labels by (simp add: image_image)
  have c: "\<forall>r \<in> set df. within_market_hours r \<longrightarrow>
              (\<exists>bar \<in> set ?out. datetime bar = bucket_of freq r * freq)"
  proof (intro ballI impI)
    fix r assume "r \<in> set df" "within_market_hours r"
    then have "bucket_of freq r * freq \<in> (\<lambda>r. bucket_of freq r * freq) ` set ?kept" by auto
    then have "bucket_of freq r * freq \<in> set (map datetime ?out)" unfolding labels .
    then show "\<exists>bar \<in> set ?out. datetime bar = bucket_of freq r * freq" by auto
  qed
  have d: "\<forall>bar \<in> set ?out. \<exists>r \<in> set df. within_market_hours r \<and>
              datetime bar = bucket_of freq r * freq"
  proof
    fix bar assume "bar \<in> set ?out"
    then have "datetime bar \<in> set (map datetime ?out)" by simp
    then have "datetime bar \<in> (\<lambda>r. bucket_of freq r * freq) ` set ?kept" unfolding labels .
    then show "\<exists>r \<in> set df. within_market_hours r \<and> datetime bar = bucket_of freq r * freq"
      by auto
  qed
  have e: "sum_list (map volume ?out) = sum_list (map volume ?kept)"
    unfolding spec_aggregate_volume
    by (metis mset_map mset_sort sum_mset_sum_list)
  from a b c d e show ?thesis by blast
qed

theorem aggregate_market_data_filters_market_hours_witness:
  "aggregate_market_data ''3m''
     [ohlcv 1 1748851200 5 5 5 5 40, ohlcv 2 1748856600 10 12 9 11 100,
      ohlcv 3 1748856660 11 15 10 14 50, ohlcv 4 1748883600 7 7 7 7 60] =
   Some [ohlcv 2 1748856600 10 15 9 14 150]"
proof -
  have h: "offset_seconds (to_timeframe_pandas ''3m'') = Some 180" by code_simp
  obtain out where
    o: "aggregate_market_data ''3m''
         [ohlcv 1 1748851200 5 5 5 5 40, ohlcv 2 1748856600 10 12 9 11 100,
          ohlcv 3 1748856660 11 15 10 14 50, ohlcv 4 1748883600 7 7 7 7 60] = Some out"
    and f: "aggregate_market_data ''3m'' (filter within_market_hours
         [ohlcv 1 1748851200 5 5 5 5 40, ohlcv 2 1748856600 10 12 9 11 100,
          ohlcv 3 1748856660 11 15 10 14 50, ohlcv 4 1748883600 7 7 7 7 60]) = Some out"
    using aggregate_market_data_filters_market_hours [OF h] by blast
  have "filter within_market_hours
         [ohlcv 1 1748851200 5 5 5 5 40, ohlcv 2 1748856600 10 12 9 11 100,
          ohlcv 3 1748856660 11 15 10 14 50, ohlcv 4 1748883600 7 7 7 7 60] =
        [ohlcv 2 1748856600 10 12 9 11 100, ohlcv 3 1748856660 11 15 10 14 50]"
    by code_simp
  moreover have "aggregate_market_data ''3m''
        [ohlcv 2 1748856600 10 12 9 11 100, ohlcv 3 1748856660 11 15 10 14 50] =
        Some [ohlcv 2 1748856600 10 15 9 14 150]"
    by code_simp
  ultimately show ?thesis using o f by simp
qed

text \<open>
  The claim as stated fails: a bar stamped 17:00:00 is assigned to no bucket of the
  output, which is empty.
\<close>

theorem session_filter_counterexample:
  "\<not> (\<forall>df out. aggregate_market_data ''3m'' df = Some out \<longrightarrow>
         (\<forall>r \<in> set df. \<exists>bar \<in> set out. datetime bar = bucket_of 180 r * 180))"
proof
  assume "\<forall>df out. aggregate_market_data ''3m'' df = Some out \<longrightarrow>
         (\<forall>r \<in> set df. \<exists>bar \<in> set out. datetime bar = bucket_of 180 r * 180)"
  moreover have "aggregate_market_data ''3m'' [ohlcv 4 1748883600 7 7 7 7 60] = Some []"
    by code_simp
  ultimately have "\<forall>r \<in> set [ohlcv 4 1748883600 7 7 7 7 60].
      \<exists>bar \<in> set ([] :: indexed_row list). datetime bar = bucket_of 180 r * 180"
    by blast
  then show False by simp
qed

section \<open>Properties of the fetch\<close>

declare fetch_all_periods_loop.simps [simp del]

lemma failed_fetched: "failed r \<Longrightarrow> fetched r = None"
  by (cases r) (auto simp: failed_def fetched_def)

lemma days_remaining_pos:
  "current_start_dt \<le> end_dt \<Longrightarrow> 1 \<le> days_remaining end_dt current_start_dt"
proof -
  assume "current_start_dt \<le> end_dt"
  then have "0 \<le> (end_dt - current_start_dt) div DAY"
    by (simp add: DAY_def pos_imp_zdiv_nonneg_iff)
  then show ?thesis by (simp add: days_remaining_def)
qed

lemma days_remaining_step:
  assumes "current_start_dt \<le> end_dt"
  shows "days_remaining end_dt (next_start end_dt current_start_dt) + 1
           \<le> days_remaining end_dt current_start_dt"
proof -
  let ?n = "next_start end_dt current_start_dt"
  have pos: "0 < DAY" by (simp add: DAY_def)
  from next_start_advances [OF assms] have "end_dt - ?n \<le> end_dt - current_start_dt - DAY"
    by simp
  then have "(end_dt - ?n) div DAY \<le> (end_dt - current_start_dt - DAY) div DAY"
    using pos by (rule zdiv_mono1)
  also have "(end_dt - current_start_dt - DAY) div DAY = (end_dt - current_start_dt) div DAY - 1"
    using pos div_add_self2 [of DAY "end_dt - current_start_dt - DAY"] by simp
  finally show ?thesis by (simp add: days_remaining_def)
qed

lemma fetch_all_periods_loop_trace:
  "fetch_all_periods_loop http_get server token symbol end_dt time_interval current_start_dt
     all_candles sent = (sent', result) \<Longrightarrow>
   \<exists>new. sent' = sent @ new \<and>
         ((\<forall>rq \<in> set new. fetched (http_get rq) \<noteq> None) \<or> result = []) \<and>
         int (length new) \<le>
           (if current_start_dt \<le> end_dt then days_remaining end_dt current_start_dt else 0)"
proof (induction http_get server token symbol end_dt time_interval current_start_dt
    all_candles sent arbitrary: sent' result rule: fetch_all_periods_loop.induct)
  case (1 http_get server token symbol end_dt time_interval current_start_dt all_candles sent)
  let ?p = "get_optimal_period (days_remaining end_dt current_start_dt)"
  let ?rq = "period_request server token symbol current_start_dt
               (period_end end_dt current_start_dt ?p) ?p time_interval"
  show ?case
  proof (cases "current_start_dt \<le> end_dt")
    case False
    with "1.prems" have "sent' = sent" "result = all_candles"
      by (simp_all add: fetch_all_periods_loop.simps)
    with False show ?thesis by simp
  next
    case le: True
    show ?thesis
    proof (cases "?p = 0")
      case True
      with le "1.prems" have "sent' = sent" by (simp add: fetch_all_periods_loop.simps)
      with le days_remaining_pos [OF le] show ?thesis by simp
    next
      case nz: False
      show ?thesis
      proof (cases "fetch_period http_get server token symbol current_start_dt
                      (period_end end_dt current_start_dt ?p) ?p time_interval")
        case None
        with le nz "1.prems" have "sent' = sent @ [?rq]" "result = []"
          by (simp_all add: fetch_all_periods_loop.simps)
        with le days_remaining_pos [OF le] show ?thesis by simp
      next
        case (Some candles)
        with le nz "1.prems" have rec:
          "fetch_all_periods_loop http_get server token symbol end_dt time_interval
             (next_start end_dt current_start_dt) (all_candles @ candles) (sent @ [?rq])
           = (sent', result)"
          by (simp add: fetch_all_periods_loop.simps)
        from "1.IH" [OF le nz Some rec] obtain new where
          new: "sent' = (sent @ [?rq]) @ new"
            "(\<forall>rq \<in> set new. fetched (http_get rq) \<noteq> None) \<or> result = []"
            "int (length new) \<le>
               (if next_start end_dt current_start_dt \<le> end_dt
                then days_remaining end_dt (next_start end_dt current_start_dt) else 0)"
          by blast
        from Some have ok: "fetched (http_get ?rq) \<noteq> None"
          by (simp add: fetch_period_def)
        have len: "int (length (?rq # new)) \<le> days_remaining end_dt current_start_dt"
          using new(3) days_remaining_step [OF le] days_remaining_pos [OF le]
          by (simp split: if_splits)
        from new(1) have "sent' = sent @ (?rq # new)" by simp
        moreover from new(2) ok
        have "(\<forall>rq \<in> set (?rq # new). fetched (http_get rq) \<noteq> None) \<or> result = []"
          by auto
        ultimately show ?thesis using len le by (intro exI [of _ "?rq # new"]) simp
      qed
    qed
  qed
qed

lemma fetch_all_periods_trace:
  "(\<forall>rq \<in> set (fst (fetch_all_periods http_get server token symbol start_dt end_dt time_interval)).
       fetched (http_get rq) \<noteq> None) \<or>
   snd (fetch_all_periods http_get server token symbol start_dt end_dt time_interval) = []"
  using fetch_all_periods_loop_trace [of http_get server token symbol end_dt time_interval
      start_dt "[]" "[]"]
  by (cases "fetch_all_periods http_get server token symbol start_dt end_dt time_interval")
     (auto simp: fetch_all_periods_def)

lemma fetch_all_periods_length:
  "int (length (fst (fetch_all_periods http_get server token symbol start_dt end_dt time_interval)))
     \<le> (if start_dt \<le> end_dt then days_remaining end_dt start_dt else 0)"
  using fetch_all_periods_loop_trace [of http_get server token symbol end_dt time_interval
      start_dt "[]" "[]"]
  by (cases "fetch_all_periods http_get server token symbol start_dt end_dt time_interval")
     (auto simp: fetch_all_periods_def)

text \<open>
  Claim C8. If any chunk request issued during a fetch fails (the transport raises, or
  the status is not 2xx), the whole fetch fails: \<open>_fetch_all_periods\<close> returns none of
  the candles accumulated from the chunks that had succeeded, and \<open>get_price_history\<close>
  returns \<open>None\<close> to its caller.
\<close>

theorem chunk_failure_fails_fetch:
  "(rq \<in> set (fst (fetch_all_periods http_get server token symbol start_dt end_dt time_interval)) \<and>
      failed (http_get rq) \<longrightarrow>
      snd (fetch_all_periods http_get server token symbol start_dt end_dt time_interval) = []) \<and>
   (rq \<in> set (fst (get_price_history self symbol start_dt end_dt time_interval)) \<and>
      failed (transport self rq) \<longrightarrow>
      snd (get_price_history self symbol start_dt end_dt time_interval) = None)"
proof -
  have a: "rq \<in> set (fst (fetch_all_periods h sv tk symbol start_dt end_dt time_interval)) \<Longrightarrow>
      failed (h rq) \<Longrightarrow>
      snd (fetch_all_periods h sv tk symbol start_dt end_dt time_interval) = []" for h sv tk
    using fetch_all_periods_trace [of h sv tk symbol start_dt end_dt time_interval]
      failed_fetched [of "h rq"] by blast
  have b: "snd (get_price_history self symbol start_dt end_dt time_interval) = None"
    if m: "rq \<in> set (fst (get_price_history self symbol start_dt end_dt time_interval))"
      and f: "failed (transport self rq)"
  proof (cases "validate_inputs self symbol time_interval")
    case False
    then show ?thesis by (simp add: get_price_history_def)
  next
    case True
    let ?f = "fetch_all_periods (transport self) (api_server self)
                (get_or (get_valid_access_token self) []) symbol start_dt end_dt time_interval"
    from True have "fst (get_price_history self symbol start_dt end_dt time_interval) = fst ?f"
      by (cases ?f) (simp add: get_price_history_def)
    with m have "rq \<in> set (fst ?f)" by simp
    from a [OF this f] have "snd ?f = []" .
    with True show ?thesis by (cases ?f) (simp add: get_price_history_def)
  qed
  from a b show ?thesis by blast
qed

text \<open>
  Claim C10. The chunking loop terminates. Whenever its body runs (the start pointer is
  not past the end), \<open>days_remaining\<close> is at least 1, so the selected period is at
  least 1, and the start pointer advances by at least one day; the loop is a total
  function (its termination is proved with the distance to the end as the measure), and
  it issues at most \<open>days_remaining\<close> requests, none when the start is past the end.
\<close>

theorem chunking_loop_terminates:
  "(current_start_dt \<le> end_dt \<longrightarrow>
      1 \<le> days_remaining end_dt current_start_dt \<and>
      1 \<le> get_optimal_period (days_remaining end_dt current_start_dt) \<and>
      current_start_dt + DAY \<le> next_start end_dt current_start_dt) \<and>
   int (length (fst (fetch_all_periods http_get server token symbol start_dt end_dt time_interval)))
     \<le> (if start_dt \<le> end_dt then days_remaining end_dt start_dt else 0)"
  using days_remaining_pos [of current_start_dt end_dt]
    get_optimal_period_pos [of "days_remaining end_dt current_start_dt"]
    next_start_advances [of current_start_dt end_dt]
    fetch_all_periods_length [of http_get server token symbol start_dt end_dt time_interval]
  by blast

theorem chunk_failure_fails_fetch_witness:
  "map q_period (fst (get_price_history (client_with (answering 1749700800000 (Response 503 None)))
      ''SPY'' 1748836800000000 (1748836800000000 + 22 * DAY) 5)) = [10, 10] \<and>
   snd (get_price_history (client_with (answering 1749700800000 (Response 503 None)))
      ''SPY'' 1748836800000000 (1748836800000000 + 22 * DAY) 5) = None \<and>
   snd (get_price_history (client_with (answering 1749700800000 RequestException))
      ''SPY'' 1748836800000000 (1748836800000000 + 22 * DAY) 5) = None \<and>
   map q_period (fst (get_price_history (client_with (answering 0 RequestException))
      ''SPY'' 1748836800000000 (1748836800000000 + 22 * DAY) 5)) = [10, 10, 3] \<and>
   map_option (map timestamp)
     (snd (get_price_history (client_with (answering 0 RequestException))
        ''SPY'' 1748836800000000 (1748836800000000 + 22 * DAY) 5)) =
     Some [1748872800000, 1749736800000, 1750600800000]"
proof -
  let ?rq = "period_request ''https://api.schwabapi.com/marketdata/v1'' ''token'' ''SPY''
      (1748836800000000 + 10 * DAY) (1748836800000000 + 19 * DAY) 10 5"
  let ?c = "client_with (answering 1749700800000 (Response 503 None))"
  let ?d = "client_with (answering 1749700800000 RequestException)"
  have m: "?rq \<in> set (fst (get_price_history ?c ''SPY'' 1748836800000000
      (1748836800000000 + 22 * DAY) 5))"
    by code_simp
  have f: "failed (transport ?c ?rq)" by code_simp
  have a: "snd (get_price_history ?c ''SPY'' 1748836800000000
      (1748836800000000 + 22 * DAY) 5) = None"
    using chunk_failure_fails_fetch [where rq = ?rq and self = ?c and symbol = "''SPY''"
        and start_dt = 1748836800000000 and end_dt = "1748836800000000 + 22 * DAY"
        and time_interval = 5] m f
    by blast
  have m': "?rq \<in> set (fst (get_price_history ?d ''SPY'' 1748836800000000
      (1748836800000000 + 22 * DAY) 5))"
    by code_simp
  have f': "failed (transport ?d ?rq)" by code_simp
  have b: "snd (get_price_history ?d ''SPY'' 1748836800000000
      (1748836800000000 + 22 * DAY) 5) = None"
    using chunk_failure_fails_fetch [where rq = ?rq and self = ?d and symbol = "''SPY''"
        and start_dt = 1748836800000000 and end_dt = "1748836800000000 + 22 * DAY"
        and time_interval = 5] m' f'
    by blast
  have c: "map q_period (fst (get_price_history ?c
      ''SPY'' 1748836800000000 (1748836800000000 + 22 * DAY) 5)) = [10, 10]"
    by code_simp
  have d: "map q_period (fst (get_price_history (client_with (answering 0 RequestException))
      ''SPY'' 1748836800000000 (1748836800000000 + 22 * DAY) 5)) = [10, 10, 3]"
    by code_simp
  have e: "map_option (map timestamp)
     (snd (get_price_history (client_with (answering 0 RequestException))
        ''SPY'' 1748836800000000 (1748836800000000 + 22 * DAY) 5)) =
     Some [1748872800000, 1749736800000, 1750600800000]"
    by code_simp
  from a b c d e show ?thesis by blast
qed

theorem chunking_loop_terminates_witness:
  "days_remaining (1748836800000000 + 22 * DAY) 1748836800000000 = 23 \<and>
   next_start (1748836800000000 + 22 * DAY) 1748836800000000 = 1748836800000000 + 10 * DAY \<and>
   length (fst (fetch_all_periods (answering 0 RequestException) ''s'' ''t'' ''SPY''
      1748836800000000 (1748836800000000 + 22 * DAY) 5)) = 3 \<and>
   length (fst (fetch_all_periods (answering 0 RequestException) ''s'' ''t'' ''SPY''
      (1748836800000000 + 22 * DAY) 1748836800000000 5)) = 0"
proof -
  have a: "days_remaining (1748836800000000 + 22 * DAY) 1748836800000000 = 23" by code_simp
  have b: "next_start (1748836800000000 + 22 * DAY) 1748836800000000 =
      1748836800000000 + 10 * DAY" by code_simp
  have c: "length (fst (fetch_all_periods (answering 0 RequestException) ''s'' ''t'' ''SPY''
      1748836800000000 (1748836800000000 + 22 * DAY) 5)) = 3" by code_simp
  have d: "length (fst (fetch_all_periods (answering 0 RequestException) ''s'' ''t'' ''SPY''
      (1748836800000000 + 22 * DAY) 1748836800000000 5)) = 0"
    using chunking_loop_terminates [where http_get = "answering 0 RequestException"
        and server = "''s''" and token = "''t''" and symbol = "''SPY''"
        and start_dt = "1748836800000000 + 22 * DAY" and end_dt = 1748836800000000
        and time_interval = 5]
    by (simp add: DAY_def)
  from a b c d show ?thesis by blast
qed

end
